theory Spec2Isabelle
  imports Main
begin

section \<open>Strings and characters\<close>

text \<open>
  Strings of the engine are modelled as \<^typ>\<open>string\<close> (lists of characters).  The
  characters that cannot be written inside an Isabelle string literal get a name.
\<close>

abbreviation newline :: char where "newline \<equiv> CHR 0x0A"
abbreviation dquote :: char where "dquote \<equiv> CHR 0x22"
abbreviation backslash :: char where "backslash \<equiv> CHR 0x5C"

definition digits :: "char list" where
  "digits = ''0123456789''"

text \<open>\<open>String(n)\<close> of a non-negative integer-valued number: its decimal digits.\<close>

definition digit_char :: "nat \<Rightarrow> char" where
  "digit_char d = digits ! d"

fun dec :: "nat \<Rightarrow> string" where
  "dec n = (if n < 10 then [digit_char n] else dec (n div 10) @ [digit_char (n mod 10)])"

declare dec.simps [simp del]

text \<open>\<open>parseInt\<close> on a string that consists of decimal digits only.\<close>

definition digit_val :: "char \<Rightarrow> nat" where
  "digit_val c = of_char c - of_char CHR ''0''"

definition parseInt :: "string \<Rightarrow> nat" where
  "parseInt ds = foldl (\<lambda>acc c. 10 * acc + digit_val c) 0 ds"

section \<open>Regular expressions of the engine\<close>

text \<open>
  The three regular expressions of the source are kept as data and run by a small
  backtracking matcher, so that each can be compared with its literal:
  \<^item> \<open>Cls cs\<close> is a character class \<open>[...]\<close> (one character out of \<open>cs\<close>),
  \<^item> \<open>StarCls cs\<close> is a greedy \<open>[...]*\<close>,
  \<^item> \<open>Lit s\<close> is a literal text,
  \<^item> \<open>Seq\<close> is concatenation and \<open>Alt\<close> is \<open>|\<close> (left alternative first).

  \<open>ends r s\<close> lists the remainders of \<open>s\<close> after every way \<open>r\<close> matches a prefix of
  \<open>s\<close>, in the order in which a backtracking matcher tries them.
\<close>

datatype rx = Cls "char list" | StarCls "char list" | Lit string | Seq rx rx | Alt rx rx

fun ends :: "rx \<Rightarrow> string \<Rightarrow> string list" where
  "ends (Cls cs) [] = []"
| "ends (Cls cs) (c # t) = (if c \<in> set cs then [t] else [])"
| "ends (StarCls cs) [] = [[]]"
| "ends (StarCls cs) (c # t) = (if c \<in> set cs then ends (StarCls cs) t @ [c # t] else [c # t])"
| "ends (Lit l) s = (if take (length l) s = l then [drop (length l) s] else [])"
| "ends (Seq a b) s = concat (map (ends b) (ends a s))"
| "ends (Alt a b) s = ends a s @ ends b s"

text \<open>
  A pattern is a list of top-level alternatives, each marked as anchored with \<open>^\<close> or not.
  \<open>match_here\<close> tries the alternatives in order at one start position and returns the
  matched text; \<open>exec\<close> is \<open>RegExp.prototype.exec\<close> without the \<open>g\<close> flag: it scans the
  start positions from the left, returns the matched text (\<open>match[0]\<close>) of the first
  success and \<open>None\<close> for \<open>null\<close>.
\<close>

type_synonym pattern = "(bool \<times> rx) list"

fun match_here :: "pattern \<Rightarrow> bool \<Rightarrow> string \<Rightarrow> string option" where
  "match_here [] at_start s = None"
| "match_here ((anchored, r) # alts) at_start s =
     (if anchored \<and> \<not> at_start then match_here alts at_start s
      else (case ends r s of
              [] \<Rightarrow> match_here alts at_start s
            | rest # _ \<Rightarrow> Some (take (length s - length rest) s)))"

fun scan :: "pattern \<Rightarrow> bool \<Rightarrow> string \<Rightarrow> string option" where
  "scan p at_start [] = match_here p at_start []"
| "scan p at_start (c # t) =
     (case match_here p at_start (c # t) of
        Some m \<Rightarrow> Some m
      | None \<Rightarrow> scan p False t)"

definition exec :: "pattern \<Rightarrow> string \<Rightarrow> string option" where
  "exec p s = scan p True s"

text \<open>\<open>const nonOutput = /^(?:\d*|undefined)[\*\+\=]|[\~\@\&\^]/;\<close>\<close>

definition nonOutput :: pattern where
  "nonOutput =
     [(True, Seq (Alt (StarCls digits) (Lit ''undefined'')) (Cls ''*+='')),
      (False, Cls ''~@&^'')]"

text \<open>\<open>const gdbMatch = /(?:\d*|undefined)\(gdb\)/;\<close>\<close>

definition gdbMatch :: pattern where
  "gdbMatch = [(False, Seq (Alt (StarCls digits) (Lit ''undefined'')) (Lit ''(gdb)''))]"

text \<open>\<open>const numRegex = /\d+/;\<close>\<close>

definition numRegex :: pattern where
  "numRegex = [(False, Seq (Cls digits) (StarCls digits))]"

definition couldBeOutput :: "string \<Rightarrow> bool" where
  "couldBeOutput line = (case exec nonOutput line of Some _ \<Rightarrow> False | None \<Rightarrow> True)"

text \<open>\<open>str.replace(/\\/g, "\\\\").replace(/"/g, '\\"')\<close>\<close>

definition escape :: "string \<Rightarrow> string" where
  "escape str =
     concat (map (\<lambda>c. if c = dquote then [backslash, dquote] else [c])
       (concat (map (\<lambda>c. if c = backslash then [backslash, backslash] else [c]) str)))"

section \<open>Protocol records\<close>

text \<open>
  The parser module \<open>mi_parse\<close> and the declarations of \<open>backend\<close> are imported by the
  engine.  Their data is modelled by the fields that the engine reads and writes.

  A result value is a scalar, a tuple of named values or a list of values.
\<close>

datatype MIValue = Scalar string | Tuple "(string \<times> MIValue) list" | ListV "MIValue list"

text \<open>
  What a JavaScript expression of the engine may hold where it is not known to be a string:
  \<open>undefined\<close>, a text or a structured value.
\<close>

datatype jsval = Undefined | Text string | Structured MIValue

text \<open>
  An out-of-band record is a stream record (\<open>isStream\<close> true; \<open>type\<close> is the channel
  \<open>console\<close>, \<open>target\<close> or \<open>log\<close>; \<open>content\<close> is the decoded text) or an asynchronous
  record (\<open>isStream\<close> false; \<open>type\<close> is \<open>exec\<close>, \<open>status\<close> or \<open>notify\<close>; \<open>asyncClass\<close> is
  the notification class; \<open>content\<close> is whatever the parser stored under that name).
\<close>

datatype OutOfBandRecord =
    StreamRecord string string
  | AsyncRecord string string jsval


fun content :: "OutOfBandRecord \<Rightarrow> jsval" where
  "content (StreamRecord ty txt) = Text txt"
| "content (AsyncRecord ty cls c) = c"

record ResultRecords =
  resultClass :: string
  results :: "(string \<times> MIValue) list"

text \<open>
  \<open>MINode\<close>: \<open>token\<close> is \<open>None\<close> for \<open>undefined\<close>; \<open>resultRecords\<close> is \<open>None\<close> on a line that
  is no result record; \<open>node_output\<close> is the field \<open>output\<close> that the engine assigns
  before it calls a handler.
\<close>

record MINode =
  token :: "nat option"
  outOfBandRecord :: "OutOfBandRecord list"
  resultRecords :: "ResultRecords option"
  node_output :: "jsval list"

text \<open>\<open>new MIError(message, source)\<close>\<close>

datatype MIError = MIError string string

text \<open>
  The functions of \<open>mi_parse\<close> that the engine calls are parameters of the model:
  \<open>parseMI(line)\<close>, the lookups \<open>node.result(path)\<close> and \<open>node.record(path)\<close> (\<open>None\<close> is
  \<open>undefined\<close>, \<open>Some\<close> a scalar text), and \<open>JSON.stringify(node)\<close>.
\<close>

record mi_parse =
  parseMI :: "string \<Rightarrow> MINode"
  result :: "MINode \<Rightarrow> string \<Rightarrow> string option"
  record_field :: "MINode \<Rightarrow> string \<Rightarrow> string option"
  stringify :: "MINode \<Rightarrow> string"

text \<open>String concatenation with a value that may be \<open>undefined\<close>.\<close>

fun js_str :: "string option \<Rightarrow> string" where
  "js_str None = ''undefined''"
| "js_str (Some s) = s"

text \<open>\<open>v || fallback\<close> on a value that is \<open>undefined\<close> or a string: the empty string is falsy.\<close>

fun or_else :: "string option \<Rightarrow> string \<Rightarrow> string" where
  "or_else None fallback = fallback"
| "or_else (Some v) fallback = (if v = [] then fallback else v)"

section \<open>Engine state and effects\<close>

text \<open>
  Everything the engine does to the outside is an event, in the order it happens:
  \<^item> \<open>Msg ty text\<close> is \<open>emit("msg", ty, text)\<close>,
  \<^item> \<open>Write text\<close> is \<open>process.stdin.write(text)\<close>,
  \<^item> \<open>Resolve n node\<close> and \<open>Reject n err\<close> settle the promise that the \<open>sendCommand\<close>
    call with token \<open>n\<close> returned,
  \<^item> \<open>Emit name node\<close> is \<open>emit(name, node)\<close>,
  \<^item> \<open>EmitThread name fields\<close> is the emission of a thread event; the fields carry the
    looked-up texts before \<open>Number(...)\<close> is applied.
  Listeners are outside the engine and are not run by the model.
\<close>

datatype event =
    Msg string string
  | Write string
  | Resolve nat MINode
  | Reject nat MIError
  | Emit string MINode
  | EmitThread string "(string \<times> string option) list"

text \<open>
  A pending handler is the closure that \<open>sendCommand\<close> stores under its token: it
  captures the command text and the suppression flag (and the promise, identified by the
  token).
\<close>

record handler =
  command :: string
  suppressFailure :: bool

text \<open>
  The fields of \<open>MI2\<close>.  \<open>buffer\<close> has no initialiser in the source, so it is \<open>undefined\<close>
  (\<open>None\<close>) until the first delivery; so are \<open>printCalls\<close> and \<open>debugOutput\<close>, which are
  only tested for truth.  The \<open>output\<close> field of the engine is called \<open>mi2_output\<close> here.
\<close>

record state =
  currentToken :: nat
  handlers :: "nat \<rightharpoonup> handler"
  buffer :: "string option"
  mi2_output :: "jsval list"
  printCalls :: bool
  debugOutput :: bool

definition init :: state where
  "init = \<lparr>currentToken = 1, handlers = Map.empty, buffer = None, mi2_output = [],
            printCalls = False, debugOutput = False\<rparr>"

text \<open>\<open>this.emit("msg", type, msg[msg.length - 1] === "\n" ? msg : (msg + "\n"))\<close>\<close>

definition log :: "string \<Rightarrow> string \<Rightarrow> event" where
  "log ty msg = Msg ty (if msg \<noteq> [] \<and> last msg = newline then msg else msg @ [newline])"

definition logNoNewLine :: "string \<Rightarrow> string \<Rightarrow> event" where
  "logNoNewLine ty msg = Msg ty msg"

text \<open>
  \<open>currentToken++\<close> on a JavaScript number: exact below \<open>2^53\<close>; at \<open>2^53\<close> the sum
  \<open>2^53 + 1\<close> rounds back to \<open>2^53\<close>.
\<close>

definition increment :: "nat \<Rightarrow> nat" where
  "increment n = (if n < 2 ^ 53 then n + 1 else n)"

definition sendRaw :: "string \<Rightarrow> state \<Rightarrow> event list" where
  "sendRaw raw s =
     (if printCalls s then [log ''log'' (''=> '' @ raw)] else []) @ [Write (raw @ [newline])]"

definition sendCommand :: "string \<Rightarrow> bool \<Rightarrow> state \<Rightarrow> event list \<times> state" where
  "sendCommand cmd suppress s =
     (let sel = currentToken s;
          s1 = s\<lparr>currentToken := increment sel\<rparr>;
          s2 = s1\<lparr>handlers := (handlers s1)(sel \<mapsto> \<lparr>command = cmd, suppressFailure = suppress\<rparr>)\<rparr>
      in (sendRaw (dec sel @ ''-'' @ cmd) s2, s2))"

text \<open>The closure stored by \<open>sendCommand\<close> under token \<open>sel\<close>, applied to a node.\<close>

definition is_error :: "MINode \<Rightarrow> bool" where
  "is_error node = (case resultRecords node of None \<Rightarrow> False | Some rr \<Rightarrow> resultClass rr = ''error'')"

definition call_handler :: "mi_parse \<Rightarrow> nat \<Rightarrow> handler \<Rightarrow> MINode \<Rightarrow> event list" where
  "call_handler mp sel h node =
     (if is_error node then
        (if suppressFailure h then
           [log ''stderr'' (''WARNING: Error executing command '' @ [CHR 0x27] @ command h @ [CHR 0x27]),
            Resolve sel node]
         else [Reject sel (MIError (or_else (result mp node ''msg'') ''Internal error'') (command h))])
      else [Resolve sel node])"

section \<open>Routing of parsed records\<close>

text \<open>
  The body of the second \<open>forEach\<close> of \<open>onOutput\<close> for one record: the events it raises,
  and whether it resets the \<open>output\<close> field of the engine (it does so for every record
  that is not a stream record).
\<close>

definition on_stopped :: "mi_parse \<Rightarrow> MINode \<Rightarrow> event list" where
  "on_stopped mp parsed =
     (let reason = record_field mp parsed ''reason'' in
      [log ''stderr'' (''stop: '' @ js_str reason)] @
      (if reason = Some ''breakpoint-hit'' then [Emit ''breakpoint'' parsed]
       else if reason = Some ''end-stepping-range'' then [Emit ''step-end'' parsed]
       else if reason = Some ''function-finished'' then [Emit ''step-out-end'' parsed]
       else if reason = Some ''signal-received'' then [Emit ''signal-stop'' parsed]
       else if reason = Some ''exited-normally'' then [Emit ''exited-normally'' parsed]
       else if reason = Some ''exited'' then
         [log ''stderr'' (''Program exited with code '' @ js_str (record_field mp parsed ''exit-code'')),
          Emit ''exited-normally'' parsed]
       else
         [log ''console'' (''Not implemented stop reason (assuming exception): '' @ js_str reason),
          Emit ''stopped'' parsed]) @
      [Emit ''generic-stopped'' parsed])"

definition on_notify :: "mi_parse \<Rightarrow> MINode \<Rightarrow> string \<Rightarrow> event list" where
  "on_notify mp parsed cls =
     (if cls = ''thread-created'' then
        [EmitThread ''thread-created''
           [(''threadId'', record_field mp parsed ''id''),
            (''threadGroupId'', record_field mp parsed ''group-id'')]]
      else if cls = ''thread-exited'' then
        [EmitThread ''thread-exited''
           [(''threadId'', record_field mp parsed ''id''),
            (''threadGroupId'', record_field mp parsed ''group-id'')]]
      else if cls = ''thread-selected'' then
        [EmitThread ''thread-selected'' [(''threadId'', record_field mp parsed ''id'')]]
      else [])"

fun on_record :: "mi_parse \<Rightarrow> MINode \<Rightarrow> OutOfBandRecord \<Rightarrow> event list \<times> bool" where
  "on_record mp parsed (StreamRecord ty txt) = ([log ty txt], False)"
| "on_record mp parsed (AsyncRecord ty cls c) =
     ((if ty = ''exec'' then
         [Emit ''exec-async-output'' parsed] @
         (if cls = ''running'' then [Emit ''running'' parsed]
          else if cls = ''stopped'' then on_stopped mp parsed
          else [log ''log'' (stringify mp parsed)])
       else if ty = ''notify'' then on_notify mp parsed cls
       else []),
      True)"

fun on_records :: "mi_parse \<Rightarrow> MINode \<Rightarrow> OutOfBandRecord list \<Rightarrow> jsval list \<Rightarrow> event list \<times> jsval list" where
  "on_records mp parsed [] out = ([], out)"
| "on_records mp parsed (r # rs) out =
     (let (ev, reset) = on_record mp parsed r;
          (evs, out') = on_records mp parsed rs (if reset then [] else out)
      in (ev @ evs, out'))"

text \<open>
  The branch of \<open>onOutput\<close> for a line that is not program output, from the parsed node on.
  The steps are those of the source, in its order: the optional debug log, the first
  \<open>forEach\<close> (every record's content is pushed), the token lookup, the log of an
  unclaimed error, the second \<open>forEach\<close> and the final \<open>Unhandled\<close> log.
  \<open>parsed.outOfBandRecord\<close> is a list, hence truthy.
\<close>

definition on_parsed :: "mi_parse \<Rightarrow> string \<Rightarrow> MINode \<Rightarrow> state \<Rightarrow> event list \<times> state" where
  "on_parsed mp line parsed0 s =
     (let ev_debug = (if debugOutput s then [log ''log'' (''GDB -> App: '' @ stringify mp parsed0)] else []);
          out1 = mi2_output s @ map content (outOfBandRecord parsed0);
          matched = (case token parsed0 of None \<Rightarrow> None
                     | Some t \<Rightarrow> (case handlers s t of None \<Rightarrow> None | Some h \<Rightarrow> Some (t, h)));
          parsed = (case matched of None \<Rightarrow> parsed0 | Some _ \<Rightarrow> parsed0\<lparr>node_output := out1\<rparr>);
          ev_handler = (case matched of None \<Rightarrow> [] | Some (t, h) \<Rightarrow> call_handler mp t h parsed);
          handlers1 = (case matched of None \<Rightarrow> handlers s | Some (t, h) \<Rightarrow> (handlers s)(t := None));
          out2 = (case matched of None \<Rightarrow> out1 | Some _ \<Rightarrow> []);
          handled1 = (matched \<noteq> None);
          ev_error = (if \<not> handled1 \<and> is_error parsed
                      then [log ''stderr'' (or_else (result mp parsed ''msg'') line)] else []);
          (ev_records, out3) = on_records mp parsed (outOfBandRecord parsed) out2;
          handled2 = True;
          ev_unhandled = (if \<not> handled2 then [log ''log'' (''Unhandled: '' @ stringify mp parsed)] else [])
      in (ev_debug @ ev_handler @ ev_error @ ev_records @ ev_unhandled,
          s\<lparr>handlers := handlers1, mi2_output := out3\<rparr>))"

text \<open>The body of the \<open>forEach\<close> of \<open>onOutput\<close> for one line.\<close>

definition on_line :: "mi_parse \<Rightarrow> string \<Rightarrow> state \<Rightarrow> event list \<times> state" where
  "on_line mp line s =
     (if couldBeOutput line then
        ((case exec gdbMatch line of None \<Rightarrow> [log ''stdout'' line] | Some _ \<Rightarrow> []), s)
      else on_parsed mp line (parseMI mp line) s)"

text \<open>\<open>lines.split("\n")\<close>: the pieces between the newlines; one empty piece for the empty text.\<close>

fun split_newline :: "string \<Rightarrow> string list" where
  "split_newline [] = [[]]"
| "split_newline (c # cs) =
     (if c = newline then [] # split_newline cs
      else (case split_newline cs of [] \<Rightarrow> [[c]] | l # ls \<Rightarrow> (c # l) # ls))"

fun on_lines :: "mi_parse \<Rightarrow> string list \<Rightarrow> state \<Rightarrow> event list \<times> state" where
  "on_lines mp [] s = ([], s)"
| "on_lines mp (l # ls) s =
     (let (ev, s1) = on_line mp l s;
          (evs, s2) = on_lines mp ls s1
      in (ev @ evs, s2))"

definition onOutput :: "mi_parse \<Rightarrow> string \<Rightarrow> state \<Rightarrow> event list \<times> state" where
  "onOutput mp lines s = on_lines mp (split_newline lines) s"

section \<open>The stdout demultiplexer\<close>

text \<open>\<open>str.lastIndexOf(c)\<close>, with \<open>None\<close> for \<open>-1\<close>.\<close>

fun lastIndexOf :: "char \<Rightarrow> string \<Rightarrow> nat option" where
  "lastIndexOf c [] = None"
| "lastIndexOf c (x # xs) =
     (case lastIndexOf c xs of
        Some i \<Rightarrow> Some (Suc i)
      | None \<Rightarrow> if x = c then Some 0 else None)"

definition onOutputPartial :: "string \<Rightarrow> event list \<times> bool" where
  "onOutputPartial line =
     (if couldBeOutput line then ([logNoNewLine ''stdout'' line], True) else ([], False))"

text \<open>
  \<open>stdout(data)\<close>, with \<open>data\<close> already decoded to text.  \<open>this.buffer += data\<close> on the
  \<open>undefined\<close> buffer of a new engine yields the text \<open>undefined\<close> followed by the data.
\<close>

definition stdout :: "mi_parse \<Rightarrow> string \<Rightarrow> state \<Rightarrow> event list \<times> state" where
  "stdout mp data s =
     (let ev_trace = [log ''stderr'' (''<= '' @ data)];
          buf = js_str (buffer s) @ data;
          s1 = s\<lparr>buffer := Some buf\<rparr>;
          (ev_lines, s2) =
             (case lastIndexOf newline buf of
                None \<Rightarrow> ([], s1)
              | Some e \<Rightarrow>
                  (let (ev, s') = onOutput mp (take e buf) s1
                   in (ev, s'\<lparr>buffer := Some (drop (e + 1) buf)\<rparr>)));
          rest = js_str (buffer s2);
          (ev_partial, s3) =
             (if rest \<noteq> [] then
                (let (ev, flushed) = onOutputPartial rest
                 in (ev, if flushed then s2\<lparr>buffer := Some []\<rparr> else s2))
              else ([], s2))
      in (ev_trace @ ev_lines @ ev_partial, s3))"

text \<open>A sequence of deliveries on stdout.\<close>

fun deliver :: "mi_parse \<Rightarrow> string list \<Rightarrow> state \<Rightarrow> event list \<times> state" where
  "deliver mp [] s = ([], s)"
| "deliver mp (d # ds) s =
     (let (ev, s1) = stdout mp d s;
          (evs, s2) = deliver mp ds s1
      in (ev @ evs, s2))"

text \<open>
  The text behind the last newline of a buffer (the whole buffer if it has none) and the
  lines in front of it, as \<open>stdout\<close> separates them.
\<close>

definition remainder :: "string \<Rightarrow> string" where
  "remainder t = (case lastIndexOf newline t of None \<Rightarrow> t | Some e \<Rightarrow> drop (e + 1) t)"

definition complete_lines :: "string \<Rightarrow> string list" where
  "complete_lines t =
     (case lastIndexOf newline t of None \<Rightarrow> [] | Some e \<Rightarrow> split_newline (take e t))"

text \<open>
  The states in which a delivery may be cut at offset \<open>k\<close>: the buffer is what an earlier
  delivery left behind, that is a text without newline that is empty or is not program
  output; or the buffer is still \<open>undefined\<close> and the first chunk is not empty.
\<close>

definition splittable :: "state \<Rightarrow> nat \<Rightarrow> bool" where
  "splittable s k =
     (case buffer s of
        None \<Rightarrow> 0 < k
      | Some b \<Rightarrow> newline \<notin> set b \<and> (b = [] \<or> \<not> couldBeOutput b))"

section \<open>Inserting a breakpoint\<close>

text \<open>
  The fields of \<open>Breakpoint\<close> (declared in \<open>backend\<close>); \<open>None\<close> is \<open>undefined\<close>.  \<open>bp_file\<close> is the
  field \<open>file\<close>; \<open>line\<close> is an integer-valued number.
\<close>

record Breakpoint =
  bp_file :: "string option"
  line :: "nat option"
  raw :: "string option"
  condition :: "string option"
  countCondition :: "string option"
  number :: "nat option"

text \<open>
  An exception thrown inside the promise executor of \<open>addBreakPoint\<close>: \<open>TypeError\<close> is what
  indexing \<open>null\<close> raises.
\<close>

datatype js_error = TypeError

text \<open>
  The part of \<open>addBreakPoint\<close> that depends on \<open>countCondition\<close>: the events it logs and
  the text it puts in front of the location.  \<open>numRegex.exec(...)![0]\<close> raises when
  \<open>exec\<close> returns \<open>null\<close>; the \<open>!\<close> is erased by the compiler.  A condition that is
  \<open>undefined\<close> or empty is falsy.

  \<open>parseInt\<close> yields the count itself below \<open>2^53\<close>, printed with its decimal digits.  A
  count of \<open>2^53\<close> or more is rounded to a floating-point number; the text that the
  concatenation prints for it is the parameter \<open>rounded\<close>.  Such a count is not zero.
\<close>

definition count_flags :: "(nat \<Rightarrow> string) \<Rightarrow> string option \<Rightarrow> js_error + (event list \<times> string)" where
  "count_flags rounded cc_opt =
     (case cc_opt of
        None \<Rightarrow> Inr ([], [])
      | Some cc \<Rightarrow>
          if cc = [] then Inr ([], [])
          else if hd cc = CHR ''>'' then
            (case exec numRegex (tl cc) of
               None \<Rightarrow> Inl TypeError
             | Some m \<Rightarrow> Inr ([], ''-i '' @ m @ '' ''))
          else
            (case exec numRegex cc of
               None \<Rightarrow> Inl TypeError
             | Some m \<Rightarrow>
                 if length m \<noteq> length cc then
                   Inr ([log ''stderr''
                          (''Unsupported break count expression: '' @ [CHR 0x27] @ cc @ [CHR 0x27] @
                           ''. Only supports '' @ [CHR 0x27] @ ''X'' @ [CHR 0x27] @
                           '' for breaking once after X times or '' @ [CHR 0x27] @ ''>X'' @ [CHR 0x27] @
                           '' for ignoring the first X breaks'')],
                        ''-t '')
                 else if parseInt m \<noteq> 0 then
                   Inr ([], ''-t -i '' @
                            (if parseInt m < 2 ^ 53 then dec (parseInt m) else rounded (parseInt m)) @
                            '' '')
                 else Inr ([], [])))"

text \<open>The part of the location that names the place.\<close>

definition place :: "Breakpoint \<Rightarrow> string" where
  "place bp =
     (if raw bp \<noteq> None \<and> raw bp \<noteq> Some [] then ''*'' @ escape (the (raw bp))
      else [dquote] @ escape (or_else (bp_file bp) ''<unknown>'') @ '':'' @
           js_str (map_option dec (line bp)) @ [dquote])"

text \<open>
  \<open>addBreakPoint\<close> up to the point where it has sent its command: the events, the new
  state, and the exception with which the returned promise is rejected at once, if the
  executor threw.  The continuation that runs on the reply (it stores the breakpoint
  number and sets the condition) is not part of this function.  \<open>rounded\<close> is the parameter
  of \<open>count_flags\<close>.
\<close>

definition addBreakPoint ::
  "(nat \<Rightarrow> string) \<Rightarrow> Breakpoint \<Rightarrow> state \<Rightarrow> event list \<times> state \<times> js_error option" where
  "addBreakPoint rounded bp s =
     (let ev_trace = [log ''stderr'' ''addBreakPoint''] in
      case count_flags rounded (countCondition bp) of
        Inl err \<Rightarrow> (ev_trace, s, Some err)
      | Inr (ev_count, flags) \<Rightarrow>
          (let (ev_send, s1) = sendCommand (''break-insert '' @ flags @ place bp) False s
           in (ev_trace @ ev_count @ ev_send, s1, None)))"

section \<open>Observations on runs of the engine\<close>

text \<open>The texts written to the subprocess, in order.\<close>

fun writes :: "event list \<Rightarrow> string list" where
  "writes [] = []"
| "writes (Write w # es) = w # writes es"
| "writes (e # es) = writes es"

text \<open>The tokens whose promise is settled, in order, and the settling events themselves.\<close>

fun completed :: "event list \<Rightarrow> nat list" where
  "completed [] = []"
| "completed (Resolve t n # es) = t # completed es"
| "completed (Reject t e # es) = t # completed es"
| "completed (e # es) = completed es"

fun completions :: "event list \<Rightarrow> event list" where
  "completions [] = []"
| "completions (Resolve t n # es) = Resolve t n # completions es"
| "completions (Reject t e # es) = Reject t e # completions es"
| "completions (e # es) = completions es"

text \<open>The messages emitted on one channel, in order.\<close>

fun messages :: "string \<Rightarrow> event list \<Rightarrow> string list" where
  "messages ty [] = []"
| "messages ty (Msg ty' m # es) = (if ty' = ty then m # messages ty es else messages ty es)"
| "messages ty (e # es) = messages ty es"

text \<open>The nodes emitted under one event name, in order.\<close>

fun emitted :: "string \<Rightarrow> event list \<Rightarrow> MINode list" where
  "emitted name [] = []"
| "emitted name (Emit name' n # es) = (if name' = name then n # emitted name es else emitted name es)"
| "emitted name (e # es) = emitted name es"

text \<open>
  The events without the trace lines of \<open>stdout\<close> (the \<open>stderr\<close> messages that echo a
  delivered chunk behind \<open><=\<close>).
\<close>

fun is_trace :: "event \<Rightarrow> bool" where
  "is_trace (Msg ty m) = (ty = ''stderr'' \<and> take 3 m = ''<= '')"
| "is_trace e = False"

definition untraced :: "event list \<Rightarrow> event list" where
  "untraced evs = filter (\<lambda>e. \<not> is_trace e) evs"

text \<open>A run of the engine: commands sent by the caller and deliveries on stdout, interleaved.\<close>

datatype action = Send string bool | Data string

fun sent :: "action list \<Rightarrow> string list" where
  "sent [] = []"
| "sent (Send c b # as) = c # sent as"
| "sent (Data d # as) = sent as"

fun step :: "mi_parse \<Rightarrow> action \<Rightarrow> state \<Rightarrow> event list \<times> state" where
  "step mp (Send c b) s = sendCommand c b s"
| "step mp (Data d) s = stdout mp d s"

fun run :: "mi_parse \<Rightarrow> action list \<Rightarrow> state \<Rightarrow> event list \<times> state" where
  "run mp [] s = ([], s)"
| "run mp (a # as) s =
     (let (ev, s1) = step mp a s;
          (evs, s2) = run mp as s1
      in (ev @ evs, s2))"

section \<open>The classification rule in the words of the specification\<close>

text \<open>
  The line splits into a token, which consists of digits only (possibly none) or is the
  word \<open>undefined\<close>, and a rest that begins with one of \<open>*\<close>, \<open>+\<close>, \<open>=\<close>.
\<close>

definition marker_first :: "string \<Rightarrow> string \<Rightarrow> bool" where
  "marker_first ms s = (case s of [] \<Rightarrow> False | c # _ \<Rightarrow> c \<in> set ms)"

definition token_then_marker :: "string \<Rightarrow> bool" where
  "token_then_marker ln =
     list_ex (\<lambda>k. (list_all (\<lambda>c. c \<in> set digits) (take k ln) \<or> take k ln = ''undefined'') \<and>
                   marker_first ''*+='' (drop k ln))
       [0 ..< Suc (length ln)]"

text \<open>The line begins with a stream-marker character; the line contains one anywhere.\<close>

definition begins_with_stream_marker :: "string \<Rightarrow> bool" where
  "begins_with_stream_marker ln = marker_first ''~@&^'' ln"

definition contains_stream_marker :: "string \<Rightarrow> bool" where
  "contains_stream_marker ln = list_ex (\<lambda>c. c \<in> set ''~@&^'') ln"

text \<open>The rule as the specification words it, and the rule that the engine follows.\<close>

definition in_band_as_specified :: "string \<Rightarrow> bool" where
  "in_band_as_specified ln = (token_then_marker ln \<or> begins_with_stream_marker ln)"

definition in_band :: "string \<Rightarrow> bool" where
  "in_band ln = (token_then_marker ln \<or> contains_stream_marker ln)"

text \<open>
  The prompt marker: somewhere in the line an optional token (digits, or the word
  \<open>undefined\<close>) is followed by the text \<open>(gdb)\<close>.
\<close>

definition prompt_marker :: "string \<Rightarrow> bool" where
  "prompt_marker ln =
     list_ex (\<lambda>i. list_ex (\<lambda>k. (list_all (\<lambda>c. c \<in> set digits) (take k (drop i ln)) \<or>
                                  take k (drop i ln) = ''undefined'') \<and>
                                 take 5 (drop k (drop i ln)) = ''(gdb)'')
                     [0 ..< Suc (length ln)])
       [0 ..< Suc (length ln)]"

section \<open>A parser for stream records\<close>

text \<open>
  Modelled from the spec: the stream-record case of \<open>parseMI\<close> (module \<open>mi_parse\<close> is not
  under src/).  The token is the leading digits (absent: \<open>undefined\<close>).  A stream record
  begins with \<open>~\<close> (console), \<open>@\<close> (target) or \<open>&\<close> (log) and carries a quoted text whose
  escapes \<open>\n\<close>, \<open>\t\<close>, \<open>\"\<close> and \<open>\\\<close> are decoded.  A line of any other shape is given the
  record without token, result class and out-of-band content.  This parser serves only to
  run the engine on concrete stream lines.
\<close>

fun cstring :: "string \<Rightarrow> string" where
  "cstring [] = []"
| "cstring [c] = (if c = dquote \<or> c = backslash then [] else [c])"
| "cstring (c # e # r) =
     (if c = dquote then []
      else if c = backslash then
        (if e = CHR ''n'' then newline else if e = CHR ''t'' then CHR 0x09 else e) # cstring r
      else c # cstring (e # r))"

definition channel :: "char \<Rightarrow> string" where
  "channel m = (if m = CHR ''~'' then ''console'' else if m = CHR ''@'' then ''target'' else ''log'')"

definition empty_node :: MINode where
  "empty_node = \<lparr>token = None, outOfBandRecord = [], resultRecords = None, node_output = []\<rparr>"

definition parse_stream :: "string \<Rightarrow> MINode" where
  "parse_stream ln =
     (let tok = takeWhile (\<lambda>c. c \<in> set digits) ln;
          rest = dropWhile (\<lambda>c. c \<in> set digits) ln
      in case rest of
           m # q # payload \<Rightarrow>
             if m \<in> set ''~@&'' \<and> q = dquote then
               \<lparr>token = (if tok = [] then None else Some (parseInt tok)),
                outOfBandRecord = [StreamRecord (channel m) (cstring payload)],
                resultRecords = None, node_output = []\<rparr>
             else empty_node
         | _ \<Rightarrow> empty_node)"

definition stream_parser :: mi_parse where
  "stream_parser =
     \<lparr>parseMI = parse_stream, result = (\<lambda>n p. None), record_field = (\<lambda>n p. None),
      stringify = (\<lambda>n. [])\<rparr>"

text \<open>
  A console stream line with the given payload, and the two lines of the round-trip
  property, \<open>~"a"\<close> and \<open>~"b"\<close>, each with its newline.
\<close>

definition console_line :: "string \<Rightarrow> string" where
  "console_line txt = [CHR ''~'', dquote] @ txt @ [dquote]"

definition two_lines :: string where
  "two_lines = console_line ''a'' @ [newline] @ console_line ''b'' @ [newline]"

text \<open>The parser decodes a line as one console record with the given text and nothing else.\<close>

definition decodes_to_console :: "mi_parse \<Rightarrow> string \<Rightarrow> string \<Rightarrow> bool" where
  "decodes_to_console mp ln txt =
     (token (parseMI mp ln) = None \<and>
      outOfBandRecord (parseMI mp ln) = [StreamRecord ''console'' txt] \<and>
      resultRecords (parseMI mp ln) = None)"

section \<open>Sample records and states\<close>

text \<open>Concrete records, parsers and states on which the engine is run below.\<close>

definition hit :: MINode where
  "hit = \<lparr>token = None, outOfBandRecord = [AsyncRecord ''exec'' ''stopped'' Undefined],
          resultRecords = None, node_output = []\<rparr>"

definition done_reply :: MINode where
  "done_reply = \<lparr>token = Some 1, outOfBandRecord = [],
                 resultRecords = Some \<lparr>resultClass = ''done'', results = []\<rparr>, node_output = []\<rparr>"

definition error_reply :: "string \<Rightarrow> MINode" where
  "error_reply m = \<lparr>token = Some 1, outOfBandRecord = [],
                 resultRecords = Some \<lparr>resultClass = ''error'', results = [(''msg'', Scalar m)]\<rparr>,
                 node_output = []\<rparr>"

text \<open>
  A lookup for \<open>node.result(name)\<close> on sample records: the scalar stored under a top-level
  name of the result record, \<open>None\<close> where there is none.
\<close>

definition msg_of :: "MINode \<Rightarrow> string \<Rightarrow> string option" where
  "msg_of n p =
     (case resultRecords n of
        None \<Rightarrow> None
      | Some rr \<Rightarrow> (case map_of (results rr) p of Some (Scalar v) \<Rightarrow> Some v | _ \<Rightarrow> None))"

text \<open>A parser that yields the given record for every line.\<close>

definition fixed_parser :: "MINode \<Rightarrow> mi_parse" where
  "fixed_parser n =
     \<lparr>parseMI = (\<lambda>ln. n), result = msg_of, record_field = (\<lambda>n p. None), stringify = (\<lambda>n. [])\<rparr>"

text \<open>The state of a new engine after one command has been sent.\<close>

definition one_pending :: state where
  "one_pending = snd (sendCommand ''break-insert main'' False init)"

definition token_stream_line :: string where
  "token_stream_line = [CHR ''1'', CHR ''~'', dquote, CHR ''x'', dquote, newline]"

definition error_line :: string where
  "error_line = ''1^error,msg='' @ [dquote, dquote]"




section \<open>What an operation writes and how it moves the token\<close>

lemma writes_append [simp]: "writes (xs @ ys) = writes xs @ writes ys"
  by (induction xs rule: writes.induct) auto

lemma writes_log [simp]: "writes (log ty m # es) = writes es"
  by (simp add: log_def)

lemma writes_call_handler [simp]: "writes (call_handler mp t h n) = []"
  by (simp add: call_handler_def)

lemma writes_on_stopped [simp]: "writes (on_stopped mp p) = []"
  by (simp add: on_stopped_def Let_def)

lemma writes_on_notify [simp]: "writes (on_notify mp p c) = []"
  by (simp add: on_notify_def)

lemma writes_on_record [simp]: "writes (fst (on_record mp p r)) = []"
  by (cases r) simp_all

lemma writes_on_records [simp]: "writes (fst (on_records mp p rs out)) = []"
  by (induction rs arbitrary: out) (simp_all add: Let_def split_beta)

lemma writes_on_parsed [simp]: "writes (fst (on_parsed mp ln p s)) = []"
  by (simp add: on_parsed_def Let_def split_beta split: option.splits)

lemma currentToken_on_parsed [simp]: "currentToken (snd (on_parsed mp ln p s)) = currentToken s"
  by (simp add: on_parsed_def Let_def split_beta)

lemma writes_on_line [simp]: "writes (fst (on_line mp ln s)) = []"
  by (simp add: on_line_def split: option.splits)

lemma currentToken_on_line [simp]: "currentToken (snd (on_line mp ln s)) = currentToken s"
  by (simp add: on_line_def)

lemma writes_on_lines [simp]: "writes (fst (on_lines mp ls s)) = []"
  by (induction ls arbitrary: s) (simp_all add: Let_def split_beta)

lemma currentToken_on_lines [simp]: "currentToken (snd (on_lines mp ls s)) = currentToken s"
  by (induction ls arbitrary: s) (simp_all add: Let_def split_beta)

lemma writes_stdout [simp]: "writes (fst (stdout mp d s)) = []"
  by (simp add: stdout_def onOutput_def onOutputPartial_def logNoNewLine_def Let_def split_beta
      split: option.splits)

lemma currentToken_stdout [simp]: "currentToken (snd (stdout mp d s)) = currentToken s"
  by (simp add: stdout_def onOutput_def onOutputPartial_def Let_def split_beta split: option.splits)

lemma writes_sendCommand:
  "writes (fst (sendCommand c b s)) = [dec (currentToken s) @ ''-'' @ c @ [newline]]"
  by (simp add: sendCommand_def sendRaw_def Let_def)

lemma currentToken_sendCommand:
  "currentToken s < 2 ^ 53 \<Longrightarrow> currentToken (snd (sendCommand c b s)) = Suc (currentToken s)"
  by (simp add: sendCommand_def increment_def Let_def)

lemma run_writes:
  "currentToken s + length (sent as) \<le> 2 ^ 53 \<Longrightarrow>
   writes (fst (run mp as s)) =
     map (\<lambda>(i, c). dec i @ ''-'' @ c @ [newline]) (enumerate (currentToken s) (sent as))"
proof (induction as arbitrary: s)
  case Nil
  then show ?case by simp
next
  case (Cons a as)
  show ?case
  proof (cases a)
    case (Send c b)
    have lt: "currentToken s < 2 ^ 53" using Cons.prems Send by simp
    have tok: "currentToken (snd (sendCommand c b s)) = Suc (currentToken s)"
      using lt by (rule currentToken_sendCommand)
    have "currentToken (snd (sendCommand c b s)) + length (sent as) \<le> 2 ^ 53"
      using Cons.prems Send tok by simp
    from Cons.IH [OF this] show ?thesis
      using Send tok by (simp add: Let_def split_beta writes_sendCommand)
  next
    case (Data d)
    have "currentToken (snd (stdout mp d s)) + length (sent as) \<le> 2 ^ 53"
      using Cons.prems Data by simp
    from Cons.IH [OF this] show ?thesis
      using Data by (simp add: Let_def split_beta)
  qed
qed

lemma run_currentToken:
  "currentToken s + length (sent as) \<le> 2 ^ 53 \<Longrightarrow>
   currentToken (snd (run mp as s)) = currentToken s + length (sent as)"
proof (induction as arbitrary: s)
  case Nil
  then show ?case by simp
next
  case (Cons a as)
  show ?case
  proof (cases a)
    case (Send c b)
    have lt: "currentToken s < 2 ^ 53" using Cons.prems Send by simp
    have tok: "currentToken (snd (sendCommand c b s)) = Suc (currentToken s)"
      using lt by (rule currentToken_sendCommand)
    have "currentToken (snd (sendCommand c b s)) + length (sent as) \<le> 2 ^ 53"
      using Cons.prems Send tok by simp
    from Cons.IH [OF this] show ?thesis
      using Send tok by (simp add: Let_def split_beta)
  next
    case (Data d)
    have "currentToken (snd (stdout mp d s)) + length (sent as) \<le> 2 ^ 53"
      using Cons.prems Data by simp
    from Cons.IH [OF this] show ?thesis
      using Data by (simp add: Let_def split_beta)
  qed
qed

section \<open>The pending table only shrinks on output\<close>

lemma handlers_on_parsed:
  "handlers (snd (on_parsed mp ln p s)) t = None \<or>
   handlers (snd (on_parsed mp ln p s)) t = handlers s t"
  by (simp add: on_parsed_def Let_def split_beta split: option.splits)

lemma handlers_on_line:
  "handlers (snd (on_line mp ln s)) t = None \<or> handlers (snd (on_line mp ln s)) t = handlers s t"
  using handlers_on_parsed by (simp add: on_line_def)

lemma handlers_on_lines:
  "handlers (snd (on_lines mp ls s)) t = None \<or> handlers (snd (on_lines mp ls s)) t = handlers s t"
proof (induction ls arbitrary: s)
  case Nil
  then show ?case by simp
next
  case (Cons l ls)
  from Cons.IH [of "snd (on_line mp l s)"] handlers_on_line [of mp l s t]
  show ?case by (auto simp add: Let_def split_beta)
qed

lemma handlers_stdout:
  "handlers (snd (stdout mp d s)) t = None \<or> handlers (snd (stdout mp d s)) t = handlers s t"
  using handlers_on_lines [of mp "split_newline (take (the (lastIndexOf newline (js_str (buffer s) @ d))) (js_str (buffer s) @ d))" "s\<lparr>buffer := Some (js_str (buffer s) @ d)\<rparr>" t]
  by (auto simp add: stdout_def onOutput_def onOutputPartial_def Let_def split_beta split: option.splits)

lemma handlers_sendCommand:
  "handlers (snd (sendCommand c b s)) =
     (handlers s)(currentToken s \<mapsto> \<lparr>command = c, suppressFailure = b\<rparr>)"
  by (simp add: sendCommand_def Let_def)

lemma run_pending_below:
  "currentToken s + length (sent as) \<le> 2 ^ 53 \<Longrightarrow>
   \<forall>t. handlers s t \<noteq> None \<longrightarrow> t < currentToken s \<Longrightarrow>
   handlers (snd (run mp as s)) t \<noteq> None \<Longrightarrow> t < currentToken (snd (run mp as s))"
proof (induction as arbitrary: s)
  case Nil
  then show ?case by simp
next
  case (Cons a as)
  show ?case
  proof (cases a)
    case (Send c b)
    let ?s1 = "snd (sendCommand c b s)"
    have lt: "currentToken s < 2 ^ 53" using Cons.prems(1) Send by simp
    have tok: "currentToken ?s1 = Suc (currentToken s)"
      using lt by (rule currentToken_sendCommand)
    have a1: "currentToken ?s1 + length (sent as) \<le> 2 ^ 53"
      using Cons.prems(1) Send tok by simp
    have a2: "\<forall>t. handlers ?s1 t \<noteq> None \<longrightarrow> t < currentToken ?s1"
      using Cons.prems(2) tok by (auto simp add: handlers_sendCommand less_Suc_eq)
    have a3: "handlers (snd (run mp as ?s1)) t \<noteq> None"
      using Cons.prems(3) Send by (simp add: Let_def split_beta)
    from Cons.IH [OF a1 a2 a3] show ?thesis
      using Send by (simp add: Let_def split_beta)
  next
    case (Data d)
    let ?s1 = "snd (stdout mp d s)"
    have a1: "currentToken ?s1 + length (sent as) \<le> 2 ^ 53"
      using Cons.prems(1) Data by simp
    have a2: "\<forall>t. handlers ?s1 t \<noteq> None \<longrightarrow> t < currentToken ?s1"
    proof (intro allI impI)
      fix u assume "handlers ?s1 u \<noteq> None"
      with handlers_stdout [of mp d s u] have "handlers s u \<noteq> None" by auto
      with Cons.prems(2) show "u < currentToken ?s1" by simp
    qed
    have a3: "handlers (snd (run mp as ?s1)) t \<noteq> None"
      using Cons.prems(3) Data by (simp add: Let_def split_beta)
    from Cons.IH [OF a1 a2 a3] show ?thesis
      using Data by (simp add: Let_def split_beta)
  qed
qed

text \<open>
  C1.  On an engine run from its creation (whatever its two public flags are set to), with
  commands sent and output delivered in any interleaving, the texts written to the
  subprocess are exactly, for the i-th call of sendCommand (counting from 1) with command
  text C: the decimal digits of i, a hyphen, C and a newline.  So the token starts at 1 and grows by one with every call, and every
  token still pending afterwards is below the token that the next call will take.  The
  number of calls is below 2^53, past which the token is out of scope.
\<close>

theorem sendCommand_wire_and_tokens:
  fixes mp :: mi_parse and as :: "action list" and calls :: bool and debug :: bool
  defines "new \<equiv> init\<lparr>printCalls := calls, debugOutput := debug\<rparr>"
  assumes "length (sent as) < 2 ^ 53"
  shows "writes (fst (run mp as new)) =
           map (\<lambda>(i, c). dec i @ ''-'' @ c @ [newline]) (enumerate 1 (sent as))
         \<and> currentToken (snd (run mp as new)) = 1 + length (sent as)
         \<and> (\<forall>t. handlers (snd (run mp as new)) t \<noteq> None
                \<longrightarrow> t < currentToken (snd (run mp as new)))"
proof -
  have tok: "currentToken new = 1" by (simp add: new_def init_def)
  have bound: "currentToken new + length (sent as) \<le> 2 ^ 53" using assms(2) tok by simp
  have none: "\<forall>t. handlers new t \<noteq> None \<longrightarrow> t < currentToken new"
    by (simp add: new_def init_def)
  have w: "writes (fst (run mp as new)) =
           map (\<lambda>(i, c). dec i @ ''-'' @ c @ [newline]) (enumerate 1 (sent as))"
    using run_writes [OF bound, of mp] tok by simp
  have c: "currentToken (snd (run mp as new)) = 1 + length (sent as)"
    using run_currentToken [OF bound, of mp] tok by simp
  have p: "\<forall>t. handlers (snd (run mp as new)) t \<noteq> None
                \<longrightarrow> t < currentToken (snd (run mp as new))"
    using run_pending_below [OF bound none] by blast
  from w c p show ?thesis by blast
qed

theorem sendCommand_wire_and_tokens_witness:
  "length (sent [Send ''gdb-set target-async on'' True, Data two_lines, Send ''break-insert main'' False])
     < 2 ^ 53
   \<and> writes (fst (run stream_parser
        [Send ''gdb-set target-async on'' True, Data two_lines, Send ''break-insert main'' False]
        (init\<lparr>printCalls := True, debugOutput := False\<rparr>))) =
       [''1-gdb-set target-async on'' @ [newline], ''2-break-insert main'' @ [newline]]"
  using sendCommand_wire_and_tokens
    [where as = "[Send ''gdb-set target-async on'' True, Data two_lines, Send ''break-insert main'' False]"
       and mp = stream_parser and calls = True and debug = False]
  by (simp add: dec.simps digit_char_def digits_def)

section \<open>What the patterns match\<close>

lemma ends_StarCls:
  "u \<in> set (ends (StarCls cs) s) \<longleftrightarrow>
     (\<exists>k\<le>length s. list_all (\<lambda>c. c \<in> set cs) (take k s) \<and> u = drop k s)"
proof (induction s)
  case Nil
  then show ?case by auto
next
  case (Cons c t)
  show ?case
  proof (cases "c \<in> set cs")
    case True
    have "(\<exists>k\<le>length (c # t). list_all (\<lambda>c. c \<in> set cs) (take k (c # t)) \<and> u = drop k (c # t))
          \<longleftrightarrow> u = c # t \<or> (\<exists>j\<le>length t. list_all (\<lambda>c. c \<in> set cs) (take j t) \<and> u = drop j t)"
      (is "?L \<longleftrightarrow> ?R")
    proof
      assume ?L
      then obtain k where k: "k \<le> length (c # t)" "list_all (\<lambda>c. c \<in> set cs) (take k (c # t))"
        "u = drop k (c # t)" by blast
      show ?R
      proof (cases k)
        case 0
        with k show ?thesis by simp
      next
        case (Suc j)
        with k show ?thesis by auto
      qed
    next
      assume ?R
      then show ?L
      proof
        assume "u = c # t"
        then have "0 \<le> length (c # t) \<and> list_all (\<lambda>c. c \<in> set cs) (take 0 (c # t)) \<and> u = drop 0 (c # t)"
          by simp
        then show ?L by blast
      next
        assume "\<exists>j\<le>length t. list_all (\<lambda>c. c \<in> set cs) (take j t) \<and> u = drop j t"
        then obtain j where "j \<le> length t" "list_all (\<lambda>c. c \<in> set cs) (take j t)" "u = drop j t"
          by blast
        with True have "Suc j \<le> length (c # t) \<and>
            list_all (\<lambda>c. c \<in> set cs) (take (Suc j) (c # t)) \<and> u = drop (Suc j) (c # t)"
          by simp
        then show ?L by blast
      qed
    qed
    with True Cons.IH show ?thesis by auto
  next
    case False
    have "(\<exists>k\<le>length (c # t). list_all (\<lambda>c. c \<in> set cs) (take k (c # t)) \<and> u = drop k (c # t))
          \<longleftrightarrow> u = c # t" (is "?L \<longleftrightarrow> ?R")
    proof
      assume ?L
      then obtain k where k: "k \<le> length (c # t)" "list_all (\<lambda>c. c \<in> set cs) (take k (c # t))"
        "u = drop k (c # t)" by blast
      show ?R
      proof (cases k)
        case 0
        with k show ?thesis by simp
      next
        case (Suc j)
        with k False show ?thesis by simp
      qed
    next
      assume ?R
      then have "0 \<le> length (c # t) \<and> list_all (\<lambda>c. c \<in> set cs) (take 0 (c # t)) \<and> u = drop 0 (c # t)"
        by simp
      then show ?L by blast
    qed
    with False show ?thesis by simp
  qed
qed

lemma ends_Cls: "ends (Cls ms) u \<noteq> [] \<longleftrightarrow> marker_first ms u"
  by (cases u) (simp_all add: marker_first_def)

lemma ends_Lit: "ends (Lit l) u \<noteq> [] \<longleftrightarrow> take (length l) u = l"
  by simp

lemma ends_Seq: "ends (Seq a b) s \<noteq> [] \<longleftrightarrow> (\<exists>u\<in>set (ends a s). ends b u \<noteq> [])"
  by auto

lemma ends_Lit_mem: "u \<in> set (ends (Lit l) s) \<longleftrightarrow> take (length l) s = l \<and> u = drop (length l) s"
  by auto

text \<open>
  The optional token of both patterns, \<open>(?:\d*|undefined)\<close>, followed by something that
  cannot match the empty rest.
\<close>

lemma token_prefix:
  assumes "P [] = False"
  shows "(\<exists>u\<in>set (ends (Alt (StarCls cs) (Lit w)) s). P u) \<longleftrightarrow>
         (\<exists>k\<le>length s. (list_all (\<lambda>c. c \<in> set cs) (take k s) \<or> take k s = w) \<and> P (drop k s))"
  (is "?L \<longleftrightarrow> ?R")
proof
  assume ?L
  then obtain u where u: "u \<in> set (ends (StarCls cs) s) \<or> u \<in> set (ends (Lit w) s)"
    and p: "P u" by auto
  from u show ?R
  proof
    assume "u \<in> set (ends (StarCls cs) s)"
    with p show ?R unfolding ends_StarCls by blast
  next
    assume "u \<in> set (ends (Lit w) s)"
    then have t: "take (length w) s = w" and d: "u = drop (length w) s"
      unfolding ends_Lit_mem by blast+
    from d p assms have "length w \<le> length s" by (cases "length w \<le> length s") auto
    with t d p show ?R by blast
  qed
next
  assume ?R
  then obtain k where k: "k \<le> length s" "P (drop k s)"
    and c: "list_all (\<lambda>c. c \<in> set cs) (take k s) \<or> take k s = w" by blast
  from c show ?L
  proof
    assume "list_all (\<lambda>c. c \<in> set cs) (take k s)"
    with k have "drop k s \<in> set (ends (StarCls cs) s)" unfolding ends_StarCls by blast
    with k show ?L by auto
  next
    assume t: "take k s = w"
    with k have "length w = k" by auto
    with t have "drop k s \<in> set (ends (Lit w) s)" unfolding ends_Lit_mem by simp
    with k show ?L by auto
  qed
qed

lemma list_ex_upto: "list_ex Q [0 ..< Suc n] \<longleftrightarrow> (\<exists>k\<le>n. Q k)"
proof -
  have range: "set [0 ..< Suc n] = {k. k \<le> n}" by auto
  show ?thesis unfolding list_ex_iff range by blast
qed

lemma token_then_marker_iff:
  "token_then_marker ln \<longleftrightarrow>
     (\<exists>k\<le>length ln. (list_all (\<lambda>c. c \<in> set digits) (take k ln) \<or> take k ln = ''undefined'') \<and>
                       marker_first ''*+='' (drop k ln))"
  unfolding token_then_marker_def by (rule list_ex_upto)

lemma ends_token_marker:
  "ends (Seq (Alt (StarCls digits) (Lit ''undefined'')) (Cls ''*+='')) s \<noteq> [] \<longleftrightarrow> token_then_marker s"
proof -
  have "marker_first ''*+='' [] = False" by (simp add: marker_first_def)
  from token_prefix [of "marker_first ''*+=''", OF this]
  show ?thesis unfolding ends_Seq ends_Cls token_then_marker_iff by blast
qed

lemma match_here_two:
  "match_here [(True, r1), (False, r2)] at_start s = None \<longleftrightarrow>
     (at_start \<longrightarrow> ends r1 s = []) \<and> ends r2 s = []"
  by (simp split: list.splits)

lemma match_here_one:
  "match_here [(False, r)] at_start s = None \<longleftrightarrow> ends r s = []"
  by (simp split: list.splits)

lemma scan_None:
  "scan p at_start s = None \<longleftrightarrow>
     match_here p at_start s = None \<and> (case s of [] \<Rightarrow> True | c # t \<Rightarrow> scan p False t = None)"
  by (cases s) (simp_all split: option.splits)

lemma match_here_nonOutput:
  "match_here nonOutput at_start s = None \<longleftrightarrow>
     (at_start \<longrightarrow> \<not> token_then_marker s) \<and> \<not> marker_first ''~@&^'' s"
  unfolding nonOutput_def match_here_two
  using ends_token_marker [of s] ends_Cls [of "''~@&^''" s] by blast

lemma scan_nonOutput_later:
  "scan nonOutput False s = None \<longleftrightarrow> \<not> contains_stream_marker s"
proof (induction s)
  case Nil
  show ?case unfolding scan_None [of _ _ "[]"] match_here_nonOutput
    by (simp add: contains_stream_marker_def marker_first_def)
next
  case (Cons c t)
  show ?case unfolding scan_None [of _ _ "c # t"] match_here_nonOutput
    using Cons.IH by (simp add: contains_stream_marker_def marker_first_def)
qed

lemma exec_nonOutput: "exec nonOutput ln = None \<longleftrightarrow> \<not> in_band ln"
proof (cases ln)
  case Nil
  show ?thesis unfolding exec_def Nil scan_None [of _ _ "[]"] match_here_nonOutput
    by (simp add: in_band_def contains_stream_marker_def marker_first_def)
next
  case (Cons c t)
  show ?thesis unfolding exec_def Cons scan_None [of _ _ "c # t"] match_here_nonOutput
    using scan_nonOutput_later [of t]
    by (auto simp add: in_band_def contains_stream_marker_def marker_first_def)
qed

lemma couldBeOutput_iff: "couldBeOutput ln \<longleftrightarrow> \<not> in_band ln"
  using exec_nonOutput [of ln] by (cases "exec nonOutput ln") (simp_all add: couldBeOutput_def)

lemma all_le_Suc: "(\<forall>i\<le>Suc n. Q i) \<longleftrightarrow> Q 0 \<and> (\<forall>i\<le>n. Q (Suc i))"
proof
  assume a: "\<forall>i\<le>Suc n. Q i"
  then show "Q 0 \<and> (\<forall>i\<le>n. Q (Suc i))" by simp
next
  assume a: "Q 0 \<and> (\<forall>i\<le>n. Q (Suc i))"
  show "\<forall>i\<le>Suc n. Q i"
  proof (intro allI impI)
    fix i assume "i \<le> Suc n"
    with a show "Q i" by (cases i) simp_all
  qed
qed

lemma scan_one:
  "scan [(False, r)] at_start s = None \<longleftrightarrow> (\<forall>i\<le>length s. ends r (drop i s) = [])"
proof (induction s arbitrary: at_start)
  case Nil
  show ?case unfolding scan_None [of _ _ "[]"] match_here_one by simp
next
  case (Cons c t)
  show ?case unfolding scan_None [of _ _ "c # t"] match_here_one
    using Cons.IH [of False] by (simp add: all_le_Suc)
qed

lemma ends_Lit_gdb: "ends (Lit ''(gdb)'') u \<noteq> [] \<longleftrightarrow> take 5 u = ''(gdb)''"
proof -
  have "length ''(gdb)'' = 5" by simp
  then show ?thesis unfolding ends_Lit by (simp only:)
qed

lemma ends_gdb:
  "ends (Seq (Alt (StarCls digits) (Lit ''undefined'')) (Lit ''(gdb)'')) d \<noteq> [] \<longleftrightarrow>
     (\<exists>k\<le>length d. (list_all (\<lambda>c. c \<in> set digits) (take k d) \<or> take k d = ''undefined'') \<and>
                      take 5 (drop k d) = ''(gdb)'')"
proof -
  have "(take 5 [] = ''(gdb)'') = False" by simp
  from token_prefix [of "\<lambda>u. take 5 u = ''(gdb)''", OF this]
  show ?thesis unfolding ends_Seq ends_Lit_gdb by blast
qed

lemma prompt_marker_iff:
  "prompt_marker ln \<longleftrightarrow>
     (\<exists>i\<le>length ln. \<exists>k\<le>length ln.
        (list_all (\<lambda>c. c \<in> set digits) (take k (drop i ln)) \<or> take k (drop i ln) = ''undefined'') \<and>
        take 5 (drop k (drop i ln)) = ''(gdb)'')"
  unfolding prompt_marker_def list_ex_upto by (rule refl)

lemma exec_gdbMatch: "exec gdbMatch ln = None \<longleftrightarrow> \<not> prompt_marker ln"
proof -
  have "(\<exists>i\<le>length ln. ends (Seq (Alt (StarCls digits) (Lit ''undefined'')) (Lit ''(gdb)'')) (drop i ln) \<noteq> [])
        \<longleftrightarrow> prompt_marker ln" (is "?L \<longleftrightarrow> _")
  proof
    assume ?L
    then obtain i k where i: "i \<le> length ln" and k: "k \<le> length (drop i ln)"
      and m: "list_all (\<lambda>c. c \<in> set digits) (take k (drop i ln)) \<or> take k (drop i ln) = ''undefined''"
             "take 5 (drop k (drop i ln)) = ''(gdb)''"
      unfolding ends_gdb by blast
    from k have "k \<le> length ln" by simp
    with i m show "prompt_marker ln" unfolding prompt_marker_iff by blast
  next
    assume "prompt_marker ln"
    then obtain i k where i: "i \<le> length ln"
      and m: "list_all (\<lambda>c. c \<in> set digits) (take k (drop i ln)) \<or> take k (drop i ln) = ''undefined''"
             "take 5 (drop k (drop i ln)) = ''(gdb)''"
      unfolding prompt_marker_iff by blast
    from m(2) have "k \<le> length (drop i ln)" by (cases "k \<le> length (drop i ln)") auto
    with i m show ?L unfolding ends_gdb by blast
  qed
  then show ?thesis unfolding exec_def gdbMatch_def scan_one by blast
qed

text \<open>
  C4, as the engine does it.  A line is handed to the parser (classified as in-band)
  exactly when it begins with an optional token, digits or the word undefined, that is
  immediately followed by one of * + =, or when it contains one of ~ @ & ^ at any
  position.  Every other line is forwarded as program output on the stdout channel, except
  that a line which matches the prompt marker (an optional token followed by (gdb),
  anywhere in the line) produces nothing.
\<close>

theorem line_classification:
  "on_line mp ln s =
     (if in_band ln then on_parsed mp ln (parseMI mp ln) s
      else if prompt_marker ln then ([], s)
      else ([log ''stdout'' ln], s))"
  using couldBeOutput_iff [of ln] exec_gdbMatch [of ln]
  by (cases "exec gdbMatch ln") (simp_all add: on_line_def)

theorem line_classification_witness:
  "on_line stream_parser ''hello'' init = ([Msg ''stdout'' (''hello'' @ [newline])], init)
   \<and> on_line stream_parser ''(gdb) '' init = ([], init)"
  using line_classification [of stream_parser "''hello''" init]
        line_classification [of stream_parser "''(gdb) ''" init]
  by (simp add: in_band_def token_then_marker_def contains_stream_marker_def marker_first_def
      prompt_marker_def digits_def log_def)

text \<open>
  C4 as stated fails: the reply \<open>1^done\<close> and the program output \<open>a & b\<close> do not begin
  with a token followed by * + = and do not begin with ~ @ & ^, yet the engine does not
  take them for program output.
\<close>

theorem line_classification_counterexample:
  "\<not> in_band_as_specified ''1^done'' \<and> \<not> couldBeOutput ''1^done'' \<and>
   \<not> in_band_as_specified ''a & b'' \<and> \<not> couldBeOutput ''a & b''"
  by (simp add: in_band_as_specified_def token_then_marker_def begins_with_stream_marker_def
      marker_first_def digits_def couldBeOutput_def exec_def nonOutput_def)

section \<open>The number pattern on four count conditions\<close>

lemma exec_num_gt3: "exec numRegex ''3'' = Some ''3''"
  by (simp add: exec_def numRegex_def digits_def)

lemma exec_num_5: "exec numRegex ''5'' = Some ''5''"
  by (simp add: exec_def numRegex_def digits_def)

lemma exec_num_0: "exec numRegex ''0'' = Some ''0''"
  by (simp add: exec_def numRegex_def digits_def)

lemma exec_num_abc: "exec numRegex ''abc'' = None"
  by (simp add: exec_def numRegex_def digits_def)

lemma count_flags_gt3: "count_flags rounded (Some ''>3'') = Inr ([], ''-i 3 '')"
  by (simp add: count_flags_def exec_num_gt3)

lemma count_flags_5: "count_flags rounded (Some ''5'') = Inr ([], ''-t -i 5 '')"
  by (simp add: count_flags_def exec_num_5 parseInt_def digit_val_def dec.simps digit_char_def digits_def)

lemma count_flags_abc: "count_flags rounded (Some ''abc'') = Inl TypeError"
  by (simp add: count_flags_def exec_num_abc)

lemma count_flags_0: "count_flags rounded (Some ''0'') = Inr ([], [])"
  by (simp add: count_flags_def exec_num_0 parseInt_def digit_val_def)

lemma count_flags_None: "count_flags rounded None = Inr ([], [])"
  by (simp add: count_flags_def)

section \<open>Count conditions of a breakpoint\<close>

text \<open>
  C5.  With countCondition \<open>>3\<close> the command written is break-insert with \<open>-i 3\<close> in front
  of the place, and with countCondition \<open>5\<close> it is break-insert with \<open>-t -i 5\<close> in front of
  the place; neither logs a warning.  With countCondition \<open>abc\<close> the engine writes nothing
  and logs no warning: the promise is rejected with a TypeError and the state is unchanged.
\<close>

theorem addBreakPoint_count_conditions:
  "addBreakPoint rounded (bp\<lparr>countCondition := Some ''>3''\<rparr>) s =
     ([log ''stderr'' ''addBreakPoint''] @ fst (sendCommand (''break-insert -i 3 '' @ place bp) False s),
      snd (sendCommand (''break-insert -i 3 '' @ place bp) False s), None)
   \<and> addBreakPoint rounded (bp\<lparr>countCondition := Some ''5''\<rparr>) s =
     ([log ''stderr'' ''addBreakPoint''] @ fst (sendCommand (''break-insert -t -i 5 '' @ place bp) False s),
      snd (sendCommand (''break-insert -t -i 5 '' @ place bp) False s), None)
   \<and> addBreakPoint rounded (bp\<lparr>countCondition := Some ''abc''\<rparr>) s =
     ([log ''stderr'' ''addBreakPoint''], s, Some TypeError)
   \<and> writes (fst (addBreakPoint rounded (bp\<lparr>countCondition := Some ''abc''\<rparr>) s)) = []
   \<and> messages ''stderr'' (fst (addBreakPoint rounded (bp\<lparr>countCondition := Some ''abc''\<rparr>) s)) =
       [''addBreakPoint'' @ [newline]]"
  by (simp add: addBreakPoint_def count_flags_gt3 count_flags_5 count_flags_abc place_def
      split_beta log_def)

text \<open>
  C10.  A countCondition equal to \<open>0\<close> changes nothing: the events, the command written,
  the new state and the outcome are those of a breakpoint without countCondition.
\<close>

theorem addBreakPoint_count_zero:
  "addBreakPoint rounded (bp\<lparr>countCondition := Some ''0''\<rparr>) s =
   addBreakPoint rounded (bp\<lparr>countCondition := None\<rparr>) s"
  by (simp add: addBreakPoint_def count_flags_0 count_flags_None place_def)

theorem addBreakPoint_count_zero_witness:
  "writes (fst (addBreakPoint dec
     \<lparr>bp_file = Some ''main.c'', line = Some 12, raw = None, condition = None,
      countCondition = Some ''0'', number = None\<rparr> init)) =
   [''1-break-insert '' @ [dquote] @ ''main.c:12'' @ [dquote, newline]]"
  using addBreakPoint_count_zero
    [of dec "\<lparr>bp_file = Some ''main.c'', line = Some 12, raw = None, condition = None,
          countCondition = Some ''0'', number = None\<rparr>" init]
  by (simp add: addBreakPoint_def count_flags_None place_def escape_def sendCommand_def
      sendRaw_def init_def Let_def dec.simps digit_char_def digits_def log_def)

section \<open>Stop notifications\<close>

text \<open>
  C7.  For an exec record with class stopped the engine raises, in this order: the
  exec-async-output event, the trace line with the reason, the events of the reason, and one
  generic-stopped event.  The events of the reason are: breakpoint for breakpoint-hit,
  step-end for end-stepping-range, step-out-end for function-finished, signal-stop for
  signal-received, exited-normally for exited-normally, a log of the exit code and
  exited-normally for exited, and for any other or missing reason a log that the reason is
  not implemented and the stopped event.
\<close>

theorem stopped_reason_events:
  fixes mp :: mi_parse and parsed :: MINode and c :: jsval
  defines "reason \<equiv> record_field mp parsed ''reason''"
  defines "evs \<equiv> fst (on_record mp parsed (AsyncRecord ''exec'' ''stopped'' c))"
  defines "pre \<equiv> [Emit ''exec-async-output'' parsed, log ''stderr'' (''stop: '' @ js_str reason)]"
  defines "post \<equiv> [Emit ''generic-stopped'' parsed]"
  shows "(reason = Some ''breakpoint-hit'' \<longrightarrow> evs = pre @ [Emit ''breakpoint'' parsed] @ post)
       \<and> (reason = Some ''end-stepping-range'' \<longrightarrow> evs = pre @ [Emit ''step-end'' parsed] @ post)
       \<and> (reason = Some ''function-finished'' \<longrightarrow> evs = pre @ [Emit ''step-out-end'' parsed] @ post)
       \<and> (reason = Some ''signal-received'' \<longrightarrow> evs = pre @ [Emit ''signal-stop'' parsed] @ post)
       \<and> (reason = Some ''exited-normally'' \<longrightarrow> evs = pre @ [Emit ''exited-normally'' parsed] @ post)
       \<and> (reason = Some ''exited'' \<longrightarrow>
            evs = pre @ [log ''stderr'' (''Program exited with code '' @
                           js_str (record_field mp parsed ''exit-code'')),
                         Emit ''exited-normally'' parsed] @ post)
       \<and> (reason \<notin> {Some ''breakpoint-hit'', Some ''end-stepping-range'', Some ''function-finished'',
                      Some ''signal-received'', Some ''exited-normally'', Some ''exited''} \<longrightarrow>
            evs = pre @ [log ''console'' (''Not implemented stop reason (assuming exception): '' @
                           js_str reason),
                         Emit ''stopped'' parsed] @ post)
       \<and> emitted ''generic-stopped'' evs = [parsed]"
  unfolding evs_def pre_def post_def reason_def
  by (simp add: on_stopped_def Let_def log_def)

theorem stopped_reason_events_witness:
  "record_field (stream_parser\<lparr>record_field := (\<lambda>n p. if p = ''reason'' then Some ''breakpoint-hit'' else None)\<rparr>)
     hit ''reason'' = Some ''breakpoint-hit''
   \<and> fst (on_record (stream_parser\<lparr>record_field := (\<lambda>n p. if p = ''reason'' then Some ''breakpoint-hit'' else None)\<rparr>)
        hit (AsyncRecord ''exec'' ''stopped'' Undefined)) =
      [Emit ''exec-async-output'' hit, Msg ''stderr'' (''stop: breakpoint-hit'' @ [newline]),
       Emit ''breakpoint'' hit, Emit ''generic-stopped'' hit]"
  using stopped_reason_events
    [of "stream_parser\<lparr>record_field := (\<lambda>n p. if p = ''reason'' then Some ''breakpoint-hit'' else None)\<rparr>"
        hit Undefined]
  by (simp add: log_def)

section \<open>Which events settle a promise\<close>

lemma completed_append [simp]: "completed (xs @ ys) = completed xs @ completed ys"
  by (induction xs rule: completed.induct) auto

lemma completions_append [simp]: "completions (xs @ ys) = completions xs @ completions ys"
  by (induction xs rule: completions.induct) auto

lemma completed_log [simp]: "completed (log ty m # es) = completed es"
  by (simp add: log_def)

lemma completions_log [simp]: "completions (log ty m # es) = completions es"
  by (simp add: log_def)

lemma completed_on_record [simp]: "completed (fst (on_record mp p r)) = []"
  by (cases r) (simp_all add: on_stopped_def on_notify_def Let_def)

lemma completions_on_record [simp]: "completions (fst (on_record mp p r)) = []"
  by (cases r) (simp_all add: on_stopped_def on_notify_def Let_def)

lemma completed_on_records [simp]: "completed (fst (on_records mp p rs out)) = []"
  by (induction rs arbitrary: out) (simp_all add: Let_def split_beta)

lemma completions_on_records [simp]: "completions (fst (on_records mp p rs out)) = []"
  by (induction rs arbitrary: out) (simp_all add: Let_def split_beta)

lemma completed_call_handler [simp]: "completed (call_handler mp t h n) = [t]"
  by (simp add: call_handler_def)

lemma completed_sendCommand [simp]: "completed (fst (sendCommand c b s)) = []"
  by (simp add: sendCommand_def sendRaw_def Let_def)

text \<open>A line whose token is not pending settles nothing for that token.\<close>

lemma absent_on_parsed:
  "handlers s t = None \<Longrightarrow>
   t \<notin> set (completed (fst (on_parsed mp ln p s))) \<and> handlers (snd (on_parsed mp ln p s)) t = None"
  by (auto simp add: on_parsed_def Let_def split_beta split: option.splits)

lemma absent_on_line:
  "handlers s t = None \<Longrightarrow>
   t \<notin> set (completed (fst (on_line mp ln s))) \<and> handlers (snd (on_line mp ln s)) t = None"
  using absent_on_parsed [of s t mp ln "parseMI mp ln"]
  by (simp add: on_line_def log_def split: option.splits)

lemma absent_on_lines:
  "handlers s t = None \<Longrightarrow>
   t \<notin> set (completed (fst (on_lines mp ls s))) \<and> handlers (snd (on_lines mp ls s)) t = None"
proof (induction ls arbitrary: s)
  case Nil
  then show ?case by simp
next
  case (Cons l ls)
  from absent_on_line [OF Cons.prems, of mp l]
  have a: "t \<notin> set (completed (fst (on_line mp l s)))"
    and b: "handlers (snd (on_line mp l s)) t = None" by simp_all
  from Cons.IH [OF b] a show ?case by (simp add: Let_def split_beta)
qed

lemma absent_stdout:
  assumes "handlers s t = None"
  shows "t \<notin> set (completed (fst (stdout mp d s))) \<and> handlers (snd (stdout mp d s)) t = None"
proof -
  let ?buf = "js_str (buffer s) @ d"
  let ?s1 = "s\<lparr>buffer := Some ?buf\<rparr>"
  have h: "handlers ?s1 t = None" using assms by simp
  show ?thesis
  proof (cases "lastIndexOf newline ?buf")
    case None
    then show ?thesis using assms
      by (simp add: stdout_def onOutputPartial_def logNoNewLine_def Let_def split_beta)
  next
    case (Some e)
    from absent_on_lines [OF h, of mp "split_newline (take e ?buf)"] Some
    show ?thesis
      by (simp add: stdout_def onOutput_def onOutputPartial_def logNoNewLine_def Let_def split_beta)
  qed
qed

lemma absent_run:
  "handlers s t = None \<Longrightarrow> t < currentToken s \<Longrightarrow>
   t \<notin> set (completed (fst (run mp as s))) \<and> handlers (snd (run mp as s)) t = None"
proof (induction as arbitrary: s)
  case Nil
  then show ?case by simp
next
  case (Cons a as)
  show ?case
  proof (cases a)
    case (Send c b)
    let ?s1 = "snd (sendCommand c b s)"
    have h: "handlers ?s1 t = None" using Cons.prems by (simp add: handlers_sendCommand)
    have "currentToken s \<le> currentToken ?s1" by (simp add: sendCommand_def increment_def Let_def)
    with Cons.prems have l: "t < currentToken ?s1" by simp
    from Cons.IH [OF h l] show ?thesis using Send by (simp add: Let_def split_beta)
  next
    case (Data d)
    let ?s1 = "snd (stdout mp d s)"
    from absent_stdout [OF Cons.prems(1), of mp d]
    have a: "t \<notin> set (completed (fst (stdout mp d s)))" and h: "handlers ?s1 t = None" by simp_all
    have l: "t < currentToken ?s1" using Cons.prems by simp
    from Cons.IH [OF h l] a show ?thesis using Data by (simp add: Let_def split_beta)
  qed
qed

text \<open>
  C2.  When a record carries a token that is pending, processing it settles the promise of
  that token, once, and of no other token, and the token leaves the pending table in the
  same step.  Whatever is delivered or sent afterwards, the token is not settled again.
\<close>

theorem reply_settles_once:
  assumes "token node = Some t" and "handlers s t = Some h" and "t < currentToken s"
  shows "completed (fst (on_parsed mp ln node s)) = [t]
       \<and> handlers (snd (on_parsed mp ln node s)) = (handlers s)(t := None)
       \<and> t \<notin> set (completed (fst (run mp as (snd (on_parsed mp ln node s)))))"
proof -
  let ?s1 = "snd (on_parsed mp ln node s)"
  have c: "completed (fst (on_parsed mp ln node s)) = [t]"
    using assms(1,2) by (simp add: on_parsed_def Let_def split_beta)
  have h: "handlers ?s1 = (handlers s)(t := None)"
    using assms(1,2) by (simp add: on_parsed_def Let_def split_beta)
  have n: "handlers ?s1 t = None" using h by simp
  have l: "t < currentToken ?s1" using assms(3) by simp
  from absent_run [OF n l] c h show ?thesis by simp
qed

lemma one_pending_eq:
  "one_pending = \<lparr>currentToken = 2,
      handlers = [1 \<mapsto> \<lparr>command = ''break-insert main'', suppressFailure = False\<rparr>],
      buffer = None, mi2_output = [], printCalls = False, debugOutput = False\<rparr>"
  by (simp add: one_pending_def sendCommand_def init_def increment_def Let_def)

theorem reply_settles_once_witness:
  "token done_reply = Some 1
   \<and> handlers one_pending 1 = Some \<lparr>command = ''break-insert main'', suppressFailure = False\<rparr>
   \<and> 1 < currentToken one_pending
   \<and> completed (fst (on_parsed stream_parser [] done_reply one_pending)) = [1]
   \<and> 1 \<notin> set (completed (fst (run stream_parser [Data token_stream_line]
               (snd (on_parsed stream_parser [] done_reply one_pending)))))"
  using reply_settles_once [of done_reply 1 one_pending
      "\<lparr>command = ''break-insert main'', suppressFailure = False\<rparr>" stream_parser "[]"
      "[Data token_stream_line]"]
  by (simp add: one_pending_eq done_reply_def)

text \<open>
  C3, as the engine does it.  sendCommand stores, under the token it takes, the command
  text and the suppression flag.  When a record with that token arrives, the promise is
  rejected exactly if the record is a result record of class error and suppression was not
  requested, and it is resolved with the record otherwise.  The failure carries the
  command text, and as its message the msg field of the record if that field is present
  and not empty, else the text Internal error.  With suppression and class error, a
  warning that names the command is logged on stderr before the promise is resolved.
\<close>

theorem command_failure:
  fixes mp :: mi_parse and node :: MINode and s :: state and ln :: string
  defines "reply \<equiv> node\<lparr>node_output := mi2_output s @ map content (outOfBandRecord node)\<rparr>"
  defines "evs \<equiv> fst (on_parsed mp ln node s)"
  assumes "token node = Some t"
    and "handlers s t = Some \<lparr>command = cmd, suppressFailure = quiet\<rparr>"
  shows "handlers (snd (sendCommand cmd quiet s0)) (currentToken s0) =
           Some \<lparr>command = cmd, suppressFailure = quiet\<rparr>
       \<and> ((\<exists>e. completions evs = [Reject t e]) \<longleftrightarrow> is_error node \<and> \<not> quiet)
       \<and> (is_error node \<and> \<not> quiet \<longrightarrow>
            completions evs =
              [Reject t (MIError (case result mp reply ''msg'' of
                                    None \<Rightarrow> ''Internal error''
                                  | Some m \<Rightarrow> if m = [] then ''Internal error'' else m) cmd)])
       \<and> (is_error node \<and> quiet \<longrightarrow>
            completions evs = [Resolve t reply] \<and>
            log ''stderr'' (''WARNING: Error executing command '' @ [CHR 0x27] @ cmd @ [CHR 0x27])
              \<in> set evs)
       \<and> (\<not> is_error node \<longrightarrow> completions evs = [Resolve t reply])"
proof -
  have err: "is_error reply = is_error node" by (simp add: reply_def is_error_def)
  have ev: "evs = (if debugOutput s then [log ''log'' (''GDB -> App: '' @ stringify mp node)] else []) @
       call_handler mp t \<lparr>command = cmd, suppressFailure = quiet\<rparr> reply @
       fst (on_records mp reply (outOfBandRecord node) [])"
    using assms(3,4) by (simp add: evs_def reply_def on_parsed_def Let_def split_beta)
  have comp: "completions evs = completions (call_handler mp t \<lparr>command = cmd, suppressFailure = quiet\<rparr> reply)"
    unfolding ev by simp
  have c1: "handlers (snd (sendCommand cmd quiet s0)) (currentToken s0) =
           Some \<lparr>command = cmd, suppressFailure = quiet\<rparr>"
    by (simp add: sendCommand_def Let_def)
  have c2: "(\<exists>e. completions evs = [Reject t e]) \<longleftrightarrow> is_error node \<and> \<not> quiet"
    unfolding comp by (auto simp add: call_handler_def err)
  have c3: "is_error node \<and> \<not> quiet \<longrightarrow>
            completions evs =
              [Reject t (MIError (case result mp reply ''msg'' of
                                    None \<Rightarrow> ''Internal error''
                                  | Some m \<Rightarrow> if m = [] then ''Internal error'' else m) cmd)]"
    unfolding comp by (cases "result mp reply ''msg''") (simp_all add: call_handler_def err)
  have c4: "is_error node \<and> quiet \<longrightarrow>
            completions evs = [Resolve t reply] \<and>
            log ''stderr'' (''WARNING: Error executing command '' @ [CHR 0x27] @ cmd @ [CHR 0x27])
              \<in> set evs"
    unfolding comp unfolding ev by (simp add: call_handler_def err)
  have c5: "\<not> is_error node \<longrightarrow> completions evs = [Resolve t reply]"
    unfolding comp by (simp add: call_handler_def err)
  from c1 c2 c3 c4 c5 show ?thesis by blast
qed

theorem command_failure_witness:
  "token (error_reply ''No symbol table is loaded.'') = Some 1
   \<and> handlers one_pending 1 = Some \<lparr>command = ''break-insert main'', suppressFailure = False\<rparr>
   \<and> completions (fst (on_parsed (fixed_parser empty_node) [] (error_reply ''No symbol table is loaded.'')
        one_pending)) =
       [Reject 1 (MIError ''No symbol table is loaded.'' ''break-insert main'')]"
  using command_failure [of "error_reply ''No symbol table is loaded.''" 1 one_pending
      "''break-insert main''" False init "fixed_parser empty_node" "[]"]
  by (simp add: one_pending_eq error_reply_def is_error_def fixed_parser_def msg_of_def)

text \<open>
  C3 as stated fails when the msg field is present and empty: the message of the failure is
  then the text Internal error, not the (empty) field.
\<close>

theorem command_failure_counterexample:
  "result (fixed_parser empty_node) (error_reply []) ''msg'' = Some []
   \<and> completions (fst (on_parsed (fixed_parser empty_node) [] (error_reply []) one_pending)) =
       [Reject 1 (MIError ''Internal error'' ''break-insert main'')]"
  by (simp add: one_pending_eq error_reply_def is_error_def fixed_parser_def msg_of_def
      on_parsed_def call_handler_def Let_def)

text \<open>
  C9, as the engine does it.  For a line that is not program output and parses to a result
  record of class error whose token is absent or not pending, the engine logs on stderr the
  msg field of the record if that field is present and not empty, else the whole line.
  This log follows the debug log, if that is switched on, and precedes the events of the
  out-of-band records of the line.  No promise is settled and the pending table is
  unchanged.
\<close>

theorem unclaimed_error:
  assumes "\<not> couldBeOutput ln" and "parseMI mp ln = node" and "is_error node"
    and "token node = None \<or> (\<exists>t. token node = Some t \<and> handlers s t = None)"
  shows "fst (on_line mp ln s) =
           (if debugOutput s then [log ''log'' (''GDB -> App: '' @ stringify mp node)] else []) @
           [log ''stderr'' (case result mp node ''msg'' of
                              None \<Rightarrow> ln
                            | Some m \<Rightarrow> if m = [] then ln else m)] @
           fst (on_records mp node (outOfBandRecord node)
                  (mi2_output s @ map content (outOfBandRecord node)))
       \<and> completions (fst (on_line mp ln s)) = []
       \<and> handlers (snd (on_line mp ln s)) = handlers s"
proof -
  have m: "(case token node of None \<Rightarrow> None
            | Some t \<Rightarrow> (case handlers s t of None \<Rightarrow> None | Some h \<Rightarrow> Some (t, h))) = None"
    using assms(4) by auto
  have o: "or_else (result mp node ''msg'') ln =
           (case result mp node ''msg'' of None \<Rightarrow> ln | Some m \<Rightarrow> if m = [] then ln else m)"
    by (cases "result mp node ''msg''") simp_all
  have e: "fst (on_line mp ln s) =
           (if debugOutput s then [log ''log'' (''GDB -> App: '' @ stringify mp node)] else []) @
           [log ''stderr'' (case result mp node ''msg'' of
                              None \<Rightarrow> ln
                            | Some m \<Rightarrow> if m = [] then ln else m)] @
           fst (on_records mp node (outOfBandRecord node)
                  (mi2_output s @ map content (outOfBandRecord node)))"
    using assms(1,2,3) m o by (simp add: on_line_def on_parsed_def Let_def split_beta)
  have h: "handlers (snd (on_line mp ln s)) = handlers s"
    using assms(1,2) m by (simp add: on_line_def on_parsed_def Let_def split_beta)
  have c: "completions (fst (on_line mp ln s)) = []" unfolding e by simp
  from e c h show ?thesis by blast
qed

theorem unclaimed_error_witness:
  "\<not> couldBeOutput error_line
   \<and> parseMI (fixed_parser (error_reply ''No symbol table is loaded.'')) error_line =
       error_reply ''No symbol table is loaded.''
   \<and> is_error (error_reply ''No symbol table is loaded.'')
   \<and> (token (error_reply ''No symbol table is loaded.'') = None \<or>
       (\<exists>t. token (error_reply ''No symbol table is loaded.'') = Some t \<and> handlers init t = None))
   \<and> fst (on_line (fixed_parser (error_reply ''No symbol table is loaded.'')) error_line init) =
       [Msg ''stderr'' (''No symbol table is loaded.'' @ [newline])]"
  using unclaimed_error [of error_line "fixed_parser (error_reply ''No symbol table is loaded.'')"
      "error_reply ''No symbol table is loaded.''" init]
  by (simp add: error_line_def couldBeOutput_def exec_def nonOutput_def digits_def fixed_parser_def
      error_reply_def is_error_def msg_of_def init_def log_def)

text \<open>
  C9 as stated fails when the msg field is present and empty: the engine then logs the
  whole line, not the (empty) field.
\<close>

theorem unclaimed_error_counterexample:
  "result (fixed_parser (error_reply [])) (error_reply []) ''msg'' = Some []
   \<and> fst (on_line (fixed_parser (error_reply [])) error_line init) =
       [Msg ''stderr'' (error_line @ [newline])]"
  by (simp add: error_line_def couldBeOutput_def exec_def nonOutput_def digits_def fixed_parser_def
      error_reply_def is_error_def msg_of_def init_def log_def on_line_def on_parsed_def Let_def)

section \<open>The unattached output\<close>





section \<open>Lines and remainder of a buffer\<close>

lemma lastIndexOf_None: "lastIndexOf x t = None \<longleftrightarrow> x \<notin> set t"
  by (induction t) (auto split: option.splits)

lemma lastIndexOf_Some:
  "lastIndexOf x t = Some e \<Longrightarrow> t = take e t @ x # drop (Suc e) t \<and> x \<notin> set (drop (Suc e) t)"
proof (induction t arbitrary: e)
  case Nil
  then show ?case by simp
next
  case (Cons c t)
  show ?case
  proof (cases "lastIndexOf x t")
    case None
    with Cons.prems have "c = x" "e = 0" by (auto split: if_splits)
    with None show ?thesis by (simp add: lastIndexOf_None)
  next
    case (Some i)
    with Cons.prems have "e = Suc i" by simp
    with Cons.IH [OF Some] show ?thesis by simp
  qed
qed

lemma lastIndexOf_less: "lastIndexOf x t = Some e \<Longrightarrow> e < length t"
  by (induction t arbitrary: e) (auto split: option.splits if_splits)

lemma lastIndexOf_append:
  "lastIndexOf x (a @ b) =
     (case lastIndexOf x b of Some i \<Rightarrow> Some (length a + i) | None \<Rightarrow> lastIndexOf x a)"
  by (induction a) (auto split: option.splits)

lemma split_newline_not_Nil [simp]: "split_newline t \<noteq> []"
  by (induction t) (auto split: list.splits)

lemma split_newline_append:
  "split_newline (u @ newline # v) = split_newline u @ split_newline v"
  by (induction u) (auto split: list.splits)

lemma remainder_no_newline: "newline \<notin> set (remainder t)"
proof (cases "lastIndexOf newline t")
  case None
  then have "newline \<notin> set t" by (simp add: lastIndexOf_None)
  with None show ?thesis by (simp add: remainder_def)
next
  case (Some e)
  from lastIndexOf_Some [OF Some] show ?thesis using Some by (simp add: remainder_def)
qed

lemma remainder_append: "remainder (t @ c) = remainder (remainder t @ c)"
proof (cases "lastIndexOf newline c")
  case None
  note c = None
  show ?thesis
  proof (cases "lastIndexOf newline t")
    case None
    then show ?thesis by (simp add: remainder_def)
  next
    case (Some e)
    have e: "e < length t" using Some by (rule lastIndexOf_less)
    have r: "lastIndexOf newline (drop (Suc e) t @ c) = None"
      using lastIndexOf_Some [OF Some] c by (simp add: lastIndexOf_None)
    show ?thesis using c Some e r by (simp add: remainder_def lastIndexOf_append)
  qed
next
  case (Some i)
  show ?thesis using Some by (simp add: remainder_def lastIndexOf_append)
qed

lemma complete_lines_append:
  "complete_lines (t @ c) = complete_lines t @ complete_lines (remainder t @ c)"
proof (cases "lastIndexOf newline t")
  case None
  then show ?thesis by (simp add: complete_lines_def remainder_def)
next
  case (Some e)
  note t = Some
  have e: "e < length t" using t by (rule lastIndexOf_less)
  have dec: "t = take e t @ newline # drop (Suc e) t" and fresh: "newline \<notin> set (drop (Suc e) t)"
    using lastIndexOf_Some [OF t] by simp_all
  show ?thesis
  proof (cases "lastIndexOf newline c")
    case None
    then have "lastIndexOf newline (drop (Suc e) t @ c) = None"
      using fresh by (simp add: lastIndexOf_None)
    with None t e show ?thesis
      by (simp add: complete_lines_def remainder_def lastIndexOf_append)
  next
    case (Some i)
    have "take (length t + i) (t @ c) = t @ take i c" by simp
    also have "\<dots> = (take e t @ newline # drop (Suc e) t) @ take i c" using dec by simp
    finally have "take (length t + i) (t @ c) = take e t @ newline # (drop (Suc e) t @ take i c)"
      by simp
    then have "split_newline (take (length t + i) (t @ c)) =
               split_newline (take e t) @ split_newline (drop (Suc e) t @ take i c)"
      by (simp only: split_newline_append)
    with Some t show ?thesis
      by (simp add: complete_lines_def remainder_def lastIndexOf_append)
  qed
qed

section \<open>Processing lines does not touch the buffer\<close>

lemma on_parsed_buffer:
  "on_parsed mp ln p (s\<lparr>buffer := b\<rparr>) =
     (fst (on_parsed mp ln p s), (snd (on_parsed mp ln p s))\<lparr>buffer := b\<rparr>)"
  by (simp add: on_parsed_def Let_def split_beta cong: option.case_cong)

lemma on_line_buffer:
  "on_line mp ln (s\<lparr>buffer := b\<rparr>) =
     (fst (on_line mp ln s), (snd (on_line mp ln s))\<lparr>buffer := b\<rparr>)"
  by (simp add: on_line_def on_parsed_buffer)

lemma on_lines_buffer:
  "on_lines mp ls (s\<lparr>buffer := b\<rparr>) =
     (fst (on_lines mp ls s), (snd (on_lines mp ls s))\<lparr>buffer := b\<rparr>)"
  by (induction ls arbitrary: s) (simp_all add: Let_def split_beta on_line_buffer)

lemma on_lines_append:
  "on_lines mp (xs @ ys) s =
     (fst (on_lines mp xs s) @ fst (on_lines mp ys (snd (on_lines mp xs s))),
      snd (on_lines mp ys (snd (on_lines mp xs s))))"
  by (induction xs arbitrary: s) (simp_all add: Let_def split_beta)

lemma buffer_on_lines [simp]: "buffer (snd (on_lines mp ls s)) = buffer s"
proof (induction ls arbitrary: s)
  case Nil
  then show ?case by simp
next
  case (Cons l ls)
  have "buffer (snd (on_line mp l s)) = buffer s"
    by (simp add: on_line_def on_parsed_def Let_def split_beta)
  with Cons.IH [of "snd (on_line mp l s)"] show ?case by (simp add: Let_def split_beta)
qed

text \<open>One delivery, in terms of the complete lines and the remainder of the buffer.\<close>

lemma stdout_eq:
  "stdout mp c s =
     (let t = js_str (buffer s) @ c;
          r = remainder t;
          flush = (r \<noteq> [] \<and> couldBeOutput r)
      in (log ''stderr'' (''<= '' @ c) # fst (on_lines mp (complete_lines t) s) @
            (if flush then [Msg ''stdout'' r] else []),
          (snd (on_lines mp (complete_lines t) s))\<lparr>buffer := Some (if flush then [] else r)\<rparr>))"
proof (cases "lastIndexOf newline (js_str (buffer s) @ c)")
  case None
  then show ?thesis
    by (simp add: stdout_def onOutputPartial_def logNoNewLine_def complete_lines_def remainder_def
        Let_def)
next
  case (Some e)
  then show ?thesis
    by (simp add: stdout_def onOutput_def onOutputPartial_def logNoNewLine_def complete_lines_def
        remainder_def Let_def split_beta on_lines_buffer)
qed

section \<open>Splitting a delivery\<close>

lemma untraced_trace [simp]:
  "untraced (log ''stderr'' (CHR ''<'' # CHR ''='' # CHR '' '' # c) # es) = untraced es"
  by (simp add: untraced_def log_def)

lemma untraced_append [simp]: "untraced (xs @ ys) = untraced xs @ untraced ys"
  by (simp add: untraced_def)

lemma messages_append [simp]: "messages ty (xs @ ys) = messages ty xs @ messages ty ys"
  by (induction xs rule: messages.induct) auto

lemma messages_untraced: "ty \<noteq> ''stderr'' \<Longrightarrow> messages ty (untraced evs) = messages ty evs"
proof (induction evs)
  case Nil
  then show ?case by (simp add: untraced_def)
next
  case (Cons e evs)
  then show ?case by (cases e) (auto simp add: untraced_def)
qed

text \<open>
  A delivery may be cut in two wherever the first part leaves nothing behind that is
  flushed as partial program output: the final state and all events but the trace lines
  are those of the single delivery.
\<close>

lemma deliver_split:
  assumes "remainder (js_str (buffer s) @ c1) = [] \<or>
           \<not> couldBeOutput (remainder (js_str (buffer s) @ c1))"
  shows "snd (deliver mp [c1, c2] s) = snd (deliver mp [c1 @ c2] s)
       \<and> untraced (fst (deliver mp [c1, c2] s)) = untraced (fst (deliver mp [c1 @ c2] s))"
proof -
  let ?p = "js_str (buffer s)"
  let ?r1 = "remainder (?p @ c1)"
  let ?l1 = "complete_lines (?p @ c1)"
  let ?s1 = "snd (on_lines mp ?l1 s)"
  have noflush: "\<not> (?r1 \<noteq> [] \<and> couldBeOutput ?r1)" using assms by blast
  have first: "stdout mp c1 s =
      (log ''stderr'' (''<= '' @ c1) # fst (on_lines mp ?l1 s), ?s1\<lparr>buffer := Some ?r1\<rparr>)"
    using assms by (auto simp add: stdout_eq Let_def)
  have lines: "complete_lines (?p @ c1 @ c2) = ?l1 @ complete_lines (?r1 @ c2)"
    using complete_lines_append [of "?p @ c1" c2] by simp
  have rest: "remainder (?p @ c1 @ c2) = remainder (?r1 @ c2)"
    using remainder_append [of "?p @ c1" c2] by simp
  have second: "stdout mp c2 (?s1\<lparr>buffer := Some ?r1\<rparr>) =
      (log ''stderr'' (''<= '' @ c2) # fst (on_lines mp (complete_lines (?r1 @ c2)) ?s1) @
         (if remainder (?r1 @ c2) \<noteq> [] \<and> couldBeOutput (remainder (?r1 @ c2))
          then [Msg ''stdout'' (remainder (?r1 @ c2))] else []),
       (snd (on_lines mp (complete_lines (?r1 @ c2)) ?s1))
         \<lparr>buffer := Some (if remainder (?r1 @ c2) \<noteq> [] \<and> couldBeOutput (remainder (?r1 @ c2))
                           then [] else remainder (?r1 @ c2))\<rparr>)"
    by (simp add: stdout_eq Let_def on_lines_buffer)
  have single: "stdout mp (c1 @ c2) s =
      (log ''stderr'' (''<= '' @ c1 @ c2) # fst (on_lines mp ?l1 s) @
         fst (on_lines mp (complete_lines (?r1 @ c2)) ?s1) @
         (if remainder (?r1 @ c2) \<noteq> [] \<and> couldBeOutput (remainder (?r1 @ c2))
          then [Msg ''stdout'' (remainder (?r1 @ c2))] else []),
       (snd (on_lines mp (complete_lines (?r1 @ c2)) ?s1))
         \<lparr>buffer := Some (if remainder (?r1 @ c2) \<noteq> [] \<and> couldBeOutput (remainder (?r1 @ c2))
                           then [] else remainder (?r1 @ c2))\<rparr>)"
    by (simp add: stdout_eq Let_def lines rest on_lines_append)
  have two: "deliver mp [c1, c2] s =
      (fst (stdout mp c1 s) @ fst (stdout mp c2 (snd (stdout mp c1 s))),
       snd (stdout mp c2 (snd (stdout mp c1 s))))"
    by (simp add: Let_def split_beta)
  have one: "deliver mp [c1 @ c2] s = stdout mp (c1 @ c2) s"
    by (simp add: Let_def split_beta)
  show ?thesis by (simp add: two one first second single)
qed

lemma stdout_splittable: "splittable (snd (stdout mp d s)) k"
  using remainder_no_newline [of "js_str (buffer s) @ d"]
  by (simp add: stdout_eq Let_def splittable_def)

lemma tilde_not_output: "CHR ''~'' \<in> set t \<Longrightarrow> \<not> couldBeOutput t"
  by (auto simp add: couldBeOutput_iff in_band_def contains_stream_marker_def list_ex_iff)

lemma two_lines_unflushed:
  assumes "k \<le> 10" and "newline \<notin> set p" and "p = [] \<or> \<not> couldBeOutput p \<or> 0 < k"
  shows "remainder (p @ take k two_lines) = [] \<or>
         \<not> couldBeOutput (remainder (p @ take k two_lines))"
proof -
  have none: "lastIndexOf newline p = None" using assms(2) by (simp add: lastIndexOf_None)
  from assms(1) have "k = 0 \<or> k = 1 \<or> k = 2 \<or> k = 3 \<or> k = 4 \<or> k = 5 \<or> k = 6 \<or> k = 7 \<or>
    k = 8 \<or> k = 9 \<or> k = 10" by arith
  then show ?thesis
  proof (elim disjE)
    assume "k = 0"
    with assms(3) none show ?thesis by (auto simp add: remainder_def)
  next
    assume "k = 1"
    then show ?thesis using none
      by (simp add: remainder_def lastIndexOf_append two_lines_def console_line_def tilde_not_output)
  next
    assume "k = 2"
    then show ?thesis using none
      by (simp add: remainder_def lastIndexOf_append two_lines_def console_line_def tilde_not_output)
  next
    assume "k = 3"
    then show ?thesis using none
      by (simp add: remainder_def lastIndexOf_append two_lines_def console_line_def tilde_not_output)
  next
    assume "k = 4"
    then show ?thesis using none
      by (simp add: remainder_def lastIndexOf_append two_lines_def console_line_def tilde_not_output)
  next
    assume "k = 5"
    then show ?thesis
      by (simp add: remainder_def lastIndexOf_append two_lines_def console_line_def)
  next
    assume "k = 6"
    then show ?thesis
      by (simp add: remainder_def lastIndexOf_append two_lines_def console_line_def tilde_not_output)
  next
    assume "k = 7"
    then show ?thesis
      by (simp add: remainder_def lastIndexOf_append two_lines_def console_line_def tilde_not_output)
  next
    assume "k = 8"
    then show ?thesis
      by (simp add: remainder_def lastIndexOf_append two_lines_def console_line_def tilde_not_output)
  next
    assume "k = 9"
    then show ?thesis
      by (simp add: remainder_def lastIndexOf_append two_lines_def console_line_def tilde_not_output)
  next
    assume "k = 10"
    then show ?thesis
      by (simp add: remainder_def lastIndexOf_append two_lines_def console_line_def)
  qed
qed

lemma splittable_unflushed:
  assumes "k \<le> 10" and "splittable s k"
  shows "remainder (js_str (buffer s) @ take k two_lines) = [] \<or>
         \<not> couldBeOutput (remainder (js_str (buffer s) @ take k two_lines))"
proof (cases "buffer s")
  case None
  with assms(2) have "0 < k" by (simp add: splittable_def)
  with two_lines_unflushed [OF assms(1), of "''undefined''"] None show ?thesis by simp
next
  case (Some b)
  with assms(2) have "newline \<notin> set b" "b = [] \<or> \<not> couldBeOutput b"
    by (simp_all add: splittable_def)
  with two_lines_unflushed [OF assms(1), of b] Some show ?thesis by auto
qed

lemma console_not_output: "\<not> couldBeOutput (console_line txt)"
  by (rule tilde_not_output) (simp add: console_line_def)

lemma two_lines_single:
  assumes "buffer s = Some []"
    and "decodes_to_console mp (console_line ''a'') ''a''"
    and "decodes_to_console mp (console_line ''b'') ''b''"
  shows "messages ''console'' (fst (deliver mp [two_lines] s)) =
           [''a'' @ [newline], ''b'' @ [newline]]"
proof -
  have lines: "complete_lines two_lines = [console_line ''a'', console_line ''b'']"
    by (simp add: complete_lines_def two_lines_def console_line_def)
  have rest: "remainder two_lines = []"
    by (simp add: remainder_def two_lines_def console_line_def)
  have line: "\<And>txt s'. decodes_to_console mp (console_line txt) txt \<Longrightarrow>
      messages ''console'' (fst (on_line mp (console_line txt) s')) =
        messages ''console'' [log ''console'' txt]"
    by (simp add: on_line_def console_not_output on_parsed_def decodes_to_console_def Let_def
        is_error_def log_def)
  show ?thesis using assms(1) line [OF assms(2)] line [OF assms(3)]
    by (simp add: stdout_eq Let_def lines rest split_beta log_def)
qed

text \<open>
  C6, as the engine does it.  Let the two console lines be delivered to an engine whose
  buffer is what an earlier delivery left behind (text without a newline that is empty or
  the beginning of a protocol record), or to a new engine provided the first chunk is not
  empty.  Then for every split offset, two deliveries end in the same state and raise
  the same events, trace lines apart, as the single delivery.  If moreover the buffer is
  empty and the parser decodes the two lines as console records with the texts a and b,
  the console lines raised are a and b, in this order, for every split offset.  Every
  delivery leaves the engine in a state of the first kind.
\<close>

theorem split_two_lines:
  assumes "k \<le> length two_lines" and "splittable s k"
  shows "snd (deliver mp [take k two_lines, drop k two_lines] s) = snd (deliver mp [two_lines] s)
       \<and> untraced (fst (deliver mp [take k two_lines, drop k two_lines] s)) =
           untraced (fst (deliver mp [two_lines] s))
       \<and> (buffer s = Some [] \<and> decodes_to_console mp (console_line ''a'') ''a'' \<and>
          decodes_to_console mp (console_line ''b'') ''b'' \<longrightarrow>
            messages ''console'' (fst (deliver mp [take k two_lines, drop k two_lines] s)) =
              [''a'' @ [newline], ''b'' @ [newline]])
       \<and> splittable (snd (stdout mp d s0)) k"
proof -
  have k: "k \<le> 10" using assms(1) by (simp add: two_lines_def console_line_def)
  from deliver_split [OF splittable_unflushed [OF k assms(2)], of mp "drop k two_lines"]
  have st: "snd (deliver mp [take k two_lines, drop k two_lines] s) = snd (deliver mp [two_lines] s)"
    and ev: "untraced (fst (deliver mp [take k two_lines, drop k two_lines] s)) =
             untraced (fst (deliver mp [two_lines] s))"
    by simp_all
  have "messages ''console'' (fst (deliver mp [take k two_lines, drop k two_lines] s)) =
        messages ''console'' (fst (deliver mp [two_lines] s))"
    using arg_cong [OF ev, of "messages ''console''"] by (simp add: messages_untraced)
  with two_lines_single [of s mp] st ev stdout_splittable [of mp d s0 k] show ?thesis by simp
qed

theorem split_two_lines_witness:
  "3 \<le> length two_lines \<and> splittable (init\<lparr>buffer := Some []\<rparr>) 3
   \<and> decodes_to_console stream_parser (console_line ''a'') ''a''
   \<and> decodes_to_console stream_parser (console_line ''b'') ''b''
   \<and> messages ''console''
       (fst (deliver stream_parser [take 3 two_lines, drop 3 two_lines] (init\<lparr>buffer := Some []\<rparr>))) =
       [''a'' @ [newline], ''b'' @ [newline]]"
  using split_two_lines [where k = 3 and s = "init\<lparr>buffer := Some []\<rparr>" and mp = stream_parser]
  by (simp add: two_lines_def splittable_def decodes_to_console_def console_line_def
      stream_parser_def parse_stream_def digits_def channel_def)

text \<open>
  C6 as stated fails on a new engine, whose buffer is still undefined.  The first delivery
  is appended to the text undefined.  Split at offset 0, the empty first chunk makes the
  engine flush that text as program output, and both lines are decoded; delivered as a
  single chunk, the first line reaches the parser behind the text undefined and is not a
  stream record.
\<close>

theorem split_two_lines_counterexample:
  "messages ''console'' (fst (deliver stream_parser [take 0 two_lines, drop 0 two_lines] init)) =
     [''a'' @ [newline], ''b'' @ [newline]]
   \<and> messages ''stdout'' (fst (deliver stream_parser [take 0 two_lines, drop 0 two_lines] init)) =
     [''undefined'']
   \<and> messages ''console'' (fst (deliver stream_parser [two_lines] init)) = [''b'' @ [newline]]
   \<and> messages ''stdout'' (fst (deliver stream_parser [two_lines] init)) = []"
  by (simp add: stdout_eq Let_def split_beta init_def two_lines_def console_line_def remainder_def
      complete_lines_def couldBeOutput_def exec_def nonOutput_def gdbMatch_def digits_def on_line_def on_parsed_def
      stream_parser_def parse_stream_def empty_node_def channel_def is_error_def log_def)

end
